theory Spec2Isabelle
  imports Complex_Main "HOL-Library.Word" "HOL-Library.Multiset"
begin

chapter \<open>The program\<close>

section \<open>Python errors\<close>

text \<open>
  Exceptions of the Python program are values. Every class below is a subclass of
  \<open>Exception\<close>, so an \<open>except Exception\<close> clause of the source catches each of them.
\<close>

datatype py_error =
    ZeroDivisionError
  | ValueError
  | TypeError
  | AttributeError
  | OverflowError
  | OSError
  | JSONDecodeError
  | RequestException
  | HTTPStatusError

section \<open>freemail\_client.py: the polling loop\<close>

text \<open>
  \<open>poll_for_code\<close> calls \<open>fetch_verification_code\<close> and \<open>time.sleep\<close>. Both are effects;
  the model writes them to a trace, in the order in which the source performs them.
  \<open>fetch_verification_code\<close> never raises (its body is wrapped in \<open>except Exception\<close>), it
  returns \<open>None\<close> or a string; the result of its \<open>k\<close>-th call is \<open>fetch k\<close>.
\<close>

datatype event = Fetch | Sleep int

text \<open>Python's truth value of an \<open>Optional[str]\<close>: \<open>None\<close> and \<open>""\<close> are false.\<close>

definition truthy_code :: "string option \<Rightarrow> bool" where
  "truthy_code c = (case c of None \<Rightarrow> False | Some s \<Rightarrow> s \<noteq> [])"

text \<open>
  The body of \<open>for i in range(1, max_retries + 1)\<close>, from the iteration with index \<open>i\<close> on.
  \<open>time.sleep\<close> raises \<open>ValueError\<close> on a negative argument.
\<close>

function poll_loop ::
  "(nat \<Rightarrow> string option) \<Rightarrow> int \<Rightarrow> nat \<Rightarrow> nat \<Rightarrow> event list
     \<Rightarrow> (py_error + string option) \<times> event list" where
  "poll_loop fetch interval max_retries i tr =
     (if i \<le> max_retries then
        (let code = fetch i; tr1 = tr @ [Fetch] in
         if truthy_code code then (Inr code, tr1)
         else if i < max_retries then
           (if interval < 0 then (Inl ValueError, tr1)
            else poll_loop fetch interval max_retries (Suc i) (tr1 @ [Sleep interval]))
         else poll_loop fetch interval max_retries (Suc i) tr1)
      else (Inr None, tr))"
  by pat_completeness auto
termination
  by (relation "measure (\<lambda>(fetch, interval, max_retries, i, tr). Suc max_retries - i)") auto

declare poll_loop.simps [simp del]

text \<open>\<open>timeout // interval\<close> is floor division, as \<open>div\<close> on \<open>int\<close>; it raises on a zero divisor.\<close>

definition poll_for_code ::
  "(nat \<Rightarrow> string option) \<Rightarrow> int \<Rightarrow> int \<Rightarrow> (py_error + string option) \<times> event list" where
  "poll_for_code fetch timeout interval =
     (if interval = 0 then (Inl ZeroDivisionError, [])
      else poll_loop fetch interval (nat (max 1 (timeout div interval))) 1 [])"

text \<open>The trace of \<open>k\<close> attempts with a sleep between consecutive ones and none after the last.\<close>

definition attempts :: "int \<Rightarrow> nat \<Rightarrow> event list" where
  "attempts interval k = concat (replicate (k - 1) [Fetch, Sleep interval]) @ [Fetch]"

section \<open>JSON values\<close>

text \<open>
  A parsed JSON document, as \<open>res.json()\<close> returns it. A Python \<open>dict\<close> is an association
  list read with \<open>map_of\<close>; \<open>JFloat\<close> carries the exact value of a finite float.
\<close>

datatype json =
    JNull
  | JBool bool
  | JInt int
  | JFloat rat
  | JStr string
  | JList "json list"
  | JObj "(string \<times> json) list"

text \<open>Python's truth value: \<open>None\<close>, \<open>False\<close>, zero and every empty container are false.\<close>

fun truthy :: "json \<Rightarrow> bool" where
  "truthy JNull = False"
| "truthy (JBool b) = b"
| "truthy (JInt n) = (n \<noteq> 0)"
| "truthy (JFloat x) = (x \<noteq> 0)"
| "truthy (JStr s) = (s \<noteq> [])"
| "truthy (JList xs) = (xs \<noteq> [])"
| "truthy (JObj kvs) = (kvs \<noteq> [])"

text \<open>\<open>d.get(k)\<close>: the value, or \<open>None\<close> for a missing key.\<close>

definition dict_get :: "(string \<times> json) list \<Rightarrow> string \<Rightarrow> json" where
  "dict_get d k = (case map_of d k of None \<Rightarrow> JNull | Some v \<Rightarrow> v)"

text \<open>\<open>a or b\<close>: the first operand when it is true, else the second.\<close>

definition py_or :: "json \<Rightarrow> json \<Rightarrow> json" where
  "py_or a b = (if truthy a then a else b)"

section \<open>freemail\_client.py: requests\<close>

text \<open>
  A name of the source that starts with an underscore carries the prefix \<open>py\<close> here
  (\<open>_request\<close> is \<open>py_request\<close>). Log calls are left out: \<open>_log\<close> swallows every exception of
  its callback and returns nothing.
\<close>

record client =
  base_url :: string
  jwt_token :: string
  verify_ssl :: bool
  proxies :: "string option"
  email :: json

text \<open>The keyword arguments a caller passes on: \<open>headers\<close>, \<open>params\<close> and \<open>timeout\<close>.\<close>

record kwargs =
  kw_headers :: "(string \<rightharpoonup> string) option"
  kw_params :: "(string \<rightharpoonup> string) option"
  kw_timeout :: "int option"

text \<open>What reaches the transport wrapper \<open>request_with_proxy_fallback\<close>.\<close>

record request =
  req_method :: string
  req_url :: string
  req_headers :: "string \<rightharpoonup> string"
  req_params :: "(string \<rightharpoonup> string) option"
  req_proxies :: "string option"
  req_verify :: bool
  req_timeout :: int

text \<open>
  A response: the status, the raw body, and what \<open>res.json()\<close> gives for it (an error when
  the body is not JSON).
\<close>

record response =
  status_code :: int
  content :: string
  json_body :: "py_error + json"

text \<open>
  The transport wrapper is not part of these sources. It is a parameter: its outcome (a
  response or a raised exception) is a function of the exchanges made so far and of the
  request. The list of exchanges is the state that the model threads through.
\<close>

type_synonym exchange = "request \<times> (py_error + response)"

type_synonym transport = "exchange list \<Rightarrow> request \<Rightarrow> py_error + response"

definition setdefault :: "(string \<rightharpoonup> string) \<Rightarrow> string \<Rightarrow> string \<Rightarrow> (string \<rightharpoonup> string)" where
  "setdefault d k v = (case d k of None \<Rightarrow> d(k \<mapsto> v) | Some old \<Rightarrow> d)"

text \<open>
  \<open>_clone_request_kwargs\<close> copies every dict among the keyword arguments, so that the
  \<open>setdefault\<close> calls of \<open>_request\<close> never write to a dict of the caller. The model passes
  values, where a copy is the value itself.
\<close>

definition py_clone_request_kwargs :: "kwargs \<Rightarrow> kwargs" where
  "py_clone_request_kwargs kw = kw"

text \<open>The request that \<open>_request\<close> builds from its arguments.\<close>

definition build_request :: "client \<Rightarrow> string \<Rightarrow> string \<Rightarrow> bool \<Rightarrow> kwargs \<Rightarrow> request" where
  "build_request c m url use_admin_token_query kw =
     (let headers0 = (case kw_headers kw of None \<Rightarrow> Map.empty | Some h \<Rightarrow> h);
          params0 = kw_params kw;
          headers = (if jwt_token c \<noteq> []
                     then setdefault (setdefault headers0 ''Authorization'' (''Bearer '' @ jwt_token c))
                            ''X-Admin-Token'' (jwt_token c)
                     else headers0);
          params = (if jwt_token c \<noteq> [] \<and> use_admin_token_query
                    then Some (setdefault (case params0 of None \<Rightarrow> Map.empty | Some p \<Rightarrow> p)
                                 ''admin_token'' (jwt_token c))
                    else params0)
      in \<lparr> req_method = m, req_url = url, req_headers = headers, req_params = params,
           req_proxies = proxies c, req_verify = verify_ssl c,
           req_timeout = (case kw_timeout kw of None \<Rightarrow> 15 | Some t \<Rightarrow> t) \<rparr>)"

text \<open>\<open>_request\<close>: one call of the transport; an exception is logged and raised again.\<close>

definition py_request ::
  "client \<Rightarrow> transport \<Rightarrow> exchange list \<Rightarrow> string \<Rightarrow> string \<Rightarrow> bool \<Rightarrow> kwargs
     \<Rightarrow> (py_error + response) \<times> exchange list" where
  "py_request c tr h m url use_admin_token_query kw =
     (let req = build_request c m url use_admin_token_query kw;
          res = tr h req
      in (res, h @ [(req, res)]))"

definition py_request_with_auth_fallback ::
  "client \<Rightarrow> transport \<Rightarrow> exchange list \<Rightarrow> string \<Rightarrow> string \<Rightarrow> kwargs
     \<Rightarrow> (py_error + response) \<times> exchange list" where
  "py_request_with_auth_fallback c tr h m url kw =
     (case py_request c tr h m url False (py_clone_request_kwargs kw) of
        (Inl e, h1) \<Rightarrow> (Inl e, h1)
      | (Inr res, h1) \<Rightarrow>
          if status_code res \<notin> {401, 403} \<or> jwt_token c = [] then (Inr res, h1)
          else py_request c tr h1 m url True (py_clone_request_kwargs kw))"

section \<open>freemail\_client.py: register\_account\<close>

text \<open>
  The loop \<open>for method in ("GET", "POST")\<close> over the methods still to try; \<open>res\<close> is the
  variable of the source, \<open>None\<close> before the first response.
\<close>

fun generate_loop ::
  "client \<Rightarrow> transport \<Rightarrow> exchange list \<Rightarrow> string \<Rightarrow> kwargs \<Rightarrow> string list \<Rightarrow> response option
     \<Rightarrow> (py_error + response option) \<times> exchange list" where
  "generate_loop c tr h url kw [] res = (Inr res, h)"
| "generate_loop c tr h url kw (m # ms) res =
     (case py_request_with_auth_fallback c tr h m url kw of
        (Inl e, h1) \<Rightarrow> (Inl e, h1)
      | (Inr r, h1) \<Rightarrow>
          if status_code r \<notin> {404, 405} then (Inr (Some r), h1)
          else generate_loop c tr h1 url kw ms (Some r))"

text \<open>
  The keyword arguments of the calls: \<open>params\<close> is \<open>{}\<close>, or \<open>{"domain": domain}\<close> for a
  domain that is not empty.
\<close>

definition generate_kwargs :: "string option \<Rightarrow> kwargs" where
  "generate_kwargs domain =
     (let params = (case domain of
                      None \<Rightarrow> Map.empty
                    | Some d \<Rightarrow> if d \<noteq> [] then [''domain'' \<mapsto> d] else Map.empty)
      in \<lparr> kw_headers = None, kw_params = Some params, kw_timeout = None \<rparr>)"

text \<open>
  \<open>register_account\<close> returns its boolean, the client (whose \<open>email\<close> it may assign) and the
  exchanges. Every exception inside its \<open>try\<close> ends in \<open>return False\<close>: one raised by the
  transport, by \<open>res.json()\<close>, or by \<open>data.get\<close> on a body that is not an object.
\<close>

definition register_account ::
  "client \<Rightarrow> transport \<Rightarrow> exchange list \<Rightarrow> string option \<Rightarrow> bool \<times> client \<times> exchange list" where
  "register_account c tr h domain =
     (let kw = generate_kwargs domain
      in case generate_loop c tr h (base_url c @ ''/api/generate'') kw [''GET'', ''POST''] None of
           (Inl e, h1) \<Rightarrow> (False, c, h1)
         | (Inr None, h1) \<Rightarrow> (False, c, h1)
         | (Inr (Some res), h1) \<Rightarrow>
             if status_code res \<in> {200, 201} then
               (case (if content res \<noteq> [] then json_body res else Inr (JObj [])) of
                  Inl e \<Rightarrow> (False, c, h1)
                | Inr (JObj d) \<Rightarrow>
                    (let em = py_or (dict_get d ''email'') (dict_get d ''mailbox'') in
                     if truthy em then (True, c\<lparr>email := em\<rparr>, h1) else (False, c, h1))
                | Inr other \<Rightarrow> (False, c, h1))
             else if status_code res \<in> {401, 403} then (False, c, h1)
             else (False, c, h1))"

section \<open>Python strings\<close>

text \<open>
  A Python \<open>str\<close> is a sequence of code points. The model covers the code points up to
  U+00FF: a \<open>char\<close> is one code point, read with \<open>of_char\<close>. On these, the methods of
  \<open>str\<close> that the program calls are as follows.
\<close>

definition cp :: "char \<Rightarrow> nat" where
  "cp c = of_char c"

text \<open>\<open>str.isspace\<close> on one code point: what \<open>strip()\<close> removes.\<close>

definition is_space :: "char \<Rightarrow> bool" where
  "is_space c = ((9 \<le> cp c \<and> cp c \<le> 13) \<or> (28 \<le> cp c \<and> cp c \<le> 32) \<or> cp c = 133 \<or> cp c = 160)"

definition strip :: "string \<Rightarrow> string" where
  "strip s = rev (dropWhile is_space (rev (dropWhile is_space s)))"

text \<open>The ASCII digits, which the pattern \<open>\d\<close> matches and \<open>float\<close> reads.\<close>

definition is_ascii_digit :: "char \<Rightarrow> bool" where
  "is_ascii_digit c = (48 \<le> cp c \<and> cp c \<le> 57)"

text \<open>\<open>str.isdigit\<close> also accepts the superscripts U+00B2, U+00B3 and U+00B9.\<close>

definition isdigit :: "string \<Rightarrow> bool" where
  "isdigit s = (s \<noteq> [] \<and> list_all (\<lambda>c. is_ascii_digit c \<or> cp c = 178 \<or> cp c = 179 \<or> cp c = 185) s)"

text \<open>
  \<open>float(s)\<close> on a string for which \<open>isdigit\<close> holds: the decimal value, or \<open>ValueError\<close>
  when a superscript digit occurs. Floats are modelled by exact rationals. The conversion
  of an integer and the comparison with \<open>1e12\<close> are exact up to a magnitude of \<open>2^53\<close>; the
  rounding of a quotient by \<open>1000.0\<close> to 53 significant bits is left out.
\<close>

definition float_of_digits :: "string \<Rightarrow> py_error + rat" where
  "float_of_digits s =
     (if list_all is_ascii_digit s
      then Inr (of_nat (foldl (\<lambda>a c. 10 * a + (cp c - 48)) 0 s))
      else Inl ValueError)"

section \<open>freemail\_client.py: \_parse\_email\_time\<close>

text \<open>
  A naive \<open>datetime\<close> is the number of microseconds since \<open>datetime.min\<close>, the least value
  of the type.
\<close>

type_synonym instant = nat

definition datetime_min :: instant where
  "datetime_min = 0"

text \<open>
  The calls into the \<open>datetime\<close> module are parameters:
  \<^item> \<open>local_from_timestamp t\<close> is \<open>datetime.fromtimestamp(t).astimezone().replace(tzinfo=None)\<close>;
  \<^item> \<open>fromisoformat s\<close> is \<open>datetime.fromisoformat(s)\<close>: the wall-clock value and, when the
    string has one, the UTC offset in seconds;
  \<^item> \<open>to_local w off\<close> is \<open>d.astimezone().replace(tzinfo=None)\<close> for the aware datetime \<open>d\<close>
    with wall-clock value \<open>w\<close> and offset \<open>off\<close>.
  Each of them may raise.
\<close>

record datetime_lib =
  local_from_timestamp :: "rat \<Rightarrow> py_error + instant"
  fromisoformat :: "string \<Rightarrow> py_error + (instant \<times> int option)"
  to_local :: "instant \<Rightarrow> int \<Rightarrow> py_error + instant"

definition time_keys :: "string list" where
  "time_keys = [''created_at'', ''createdAt'', ''received_at'', ''receivedAt'', ''sent_at'', ''sentAt'']"

text \<open>The loop over \<open>time_keys\<close>: the first value that is not \<open>None\<close>, else \<open>None\<close>.\<close>

fun first_time :: "(string \<times> json) list \<Rightarrow> string list \<Rightarrow> json" where
  "first_time d [] = JNull"
| "first_time d (k # ks) = (if dict_get d k \<noteq> JNull then dict_get d k else first_time d ks)"

text \<open>
  \<open>re.sub(r"(\.\d{6})\d+", r"\1", raw)\<close>: wherever a dot is followed by seven or more
  digits, the digits after the sixth are dropped. The recursion is on the length of the
  string, which the number \<open>n\<close> bounds.
\<close>

definition seven_digits :: "string \<Rightarrow> bool" where
  "seven_digits s = (7 \<le> length (takeWhile is_ascii_digit s))"

fun truncate_fraction_aux :: "nat \<Rightarrow> string \<Rightarrow> string" where
  "truncate_fraction_aux 0 s = s"
| "truncate_fraction_aux (Suc n) [] = []"
| "truncate_fraction_aux (Suc n) (c # s) =
     (if c = CHR ''.'' \<and> seven_digits s
      then c # take 6 s @ truncate_fraction_aux n (dropWhile is_ascii_digit s)
      else c # truncate_fraction_aux n s)"

definition truncate_fraction :: "string \<Rightarrow> string" where
  "truncate_fraction s = truncate_fraction_aux (length s) s"

text \<open>\<open>raw.replace("Z", "+00:00")\<close> replaces every \<open>Z\<close>.\<close>

definition replace_Z :: "string \<Rightarrow> string" where
  "replace_Z s = concat (map (\<lambda>c. if c = CHR ''Z'' then ''+00:00'' else [c]) s)"

text \<open>The two numeric branches share the scaling of the value.\<close>

definition scale_timestamp :: "rat \<Rightarrow> rat" where
  "scale_timestamp t = (if t > 10 ^ 12 then t / 1000 else t)"

definition from_number :: "datetime_lib \<Rightarrow> rat \<Rightarrow> py_error + instant option" where
  "from_number lib t =
     (case local_from_timestamp lib (scale_timestamp t) of
        Inl e \<Rightarrow> Inl e
      | Inr i \<Rightarrow> Inr (Some i))"

text \<open>
  The ISO branch is the only one inside a \<open>try\<close>: whatever \<open>fromisoformat\<close> or \<open>astimezone\<close>
  raises there becomes \<open>None\<close>.
\<close>

definition from_iso :: "datetime_lib \<Rightarrow> string \<Rightarrow> py_error + instant option" where
  "from_iso lib raw =
     (case fromisoformat lib (replace_Z (truncate_fraction raw)) of
        Inl e \<Rightarrow> Inr None
      | Inr (w, tz) \<Rightarrow>
          (case to_local lib w (case tz of None \<Rightarrow> 0 | Some off \<Rightarrow> off) of
             Inl e \<Rightarrow> Inr None
           | Inr i \<Rightarrow> Inr (Some i)))"

text \<open>
  \<open>_parse_email_time\<close>. \<open>email_obj.get\<close> raises \<open>AttributeError\<close> on an item that is not an
  object. A \<open>bool\<close> is an \<open>int\<close> in Python, so it takes the numeric branch.
\<close>

definition py_parse_email_time :: "datetime_lib \<Rightarrow> json \<Rightarrow> py_error + instant option" where
  "py_parse_email_time lib email_obj =
     (case email_obj of
        JObj d \<Rightarrow>
          (case first_time d time_keys of
             JNull \<Rightarrow> Inr None
           | JBool b \<Rightarrow> from_number lib (if b then 1 else 0)
           | JInt n \<Rightarrow> from_number lib (of_int n)
           | JFloat x \<Rightarrow> from_number lib x
           | JStr s \<Rightarrow>
               (let raw = strip s in
                if raw = [] then Inr None
                else if isdigit raw then
                  (case float_of_digits raw of
                     Inl e \<Rightarrow> Inl e
                   | Inr t \<Rightarrow> from_number lib t)
                else from_iso lib raw)
           | other \<Rightarrow> Inr None)
      | other \<Rightarrow> Inl AttributeError)"

section \<open>freemail\_client.py: the order in which fetch\_verification\_code scans\<close>

text \<open>
  \<open>list.sort(key=..., reverse=True)\<close> is a stable sort in descending order of the keys:
  elements with equal keys keep their order. CPython reverses the list, sorts it stably in
  ascending order and reverses it again; a stable sort has one result, so insertion sort
  stands for its merge sort.
\<close>

definition sort_reverse :: "('a \<Rightarrow> nat) \<Rightarrow> 'a list \<Rightarrow> 'a list" where
  "sort_reverse key xs = rev (sort_key key (rev xs))"

text \<open>The key \<open>item[1] or datetime.min\<close>; a \<open>datetime\<close> is always true.\<close>

definition time_key :: "'a \<times> instant option \<Rightarrow> instant" where
  "time_key item = (case snd item of None \<Rightarrow> datetime_min | Some t \<Rightarrow> t)"

definition has_time :: "'a \<times> instant option \<Rightarrow> bool" where
  "has_time item = (snd item \<noteq> None)"

text \<open>
  The statements after \<open>emails_with_time\<close> is built: the list is sorted when some item has
  a time, and is left as it is otherwise. The new value of \<open>emails\<close> is its first
  components.
\<close>

definition order_emails_with_time :: "('a \<times> instant option) list \<Rightarrow> ('a \<times> instant option) list" where
  "order_emails_with_time emails_with_time =
     (if list_ex has_time emails_with_time
      then sort_reverse time_key emails_with_time
      else emails_with_time)"

text \<open>
  \<open>emails_with_time\<close> itself: a list comprehension, so the first call of
  \<open>_parse_email_time\<close> that raises ends it.
\<close>

fun emails_with_time :: "datetime_lib \<Rightarrow> json list \<Rightarrow> py_error + (json \<times> instant option) list" where
  "emails_with_time lib [] = Inr []"
| "emails_with_time lib (e # es) =
     (case py_parse_email_time lib e of
        Inl err \<Rightarrow> Inl err
      | Inr t \<Rightarrow>
          (case emails_with_time lib es of
             Inl err \<Rightarrow> Inl err
           | Inr rest \<Rightarrow> Inr ((e, t) # rest)))"

definition order_emails :: "datetime_lib \<Rightarrow> json list \<Rightarrow> py_error + json list" where
  "order_emails lib emails =
     (case emails_with_time lib emails of
        Inl err \<Rightarrow> Inl err
      | Inr ewt \<Rightarrow> Inr (map fst (order_emails_with_time ewt)))"

text \<open>
  What the specification asks of the order: every item with a time stands before every
  item without one.
\<close>

definition timed_first :: "('a \<times> instant option) list \<Rightarrow> bool" where
  "timed_first xs = (xs = filter has_time xs @ filter (\<lambda>x. \<not> has_time x) xs)"

section \<open>Library functions on strings and bytes\<close>

text \<open>\<open>str.lower\<close> on the code points up to U+00FF: the letters A to Z, and U+00C0 to U+00DE
  without the multiplication sign U+00D7, move up by 32.\<close>

definition lower_char :: "char \<Rightarrow> char" where
  "lower_char c =
     (if (65 \<le> cp c \<and> cp c \<le> 90) \<or> (192 \<le> cp c \<and> cp c \<le> 214) \<or> (216 \<le> cp c \<and> cp c \<le> 222)
      then char_of (cp c + 32) else c)"

definition lower :: "string \<Rightarrow> string" where
  "lower s = map lower_char s"

text \<open>\<open>sep.join(xs)\<close>.\<close>

fun join :: "string \<Rightarrow> string list \<Rightarrow> string" where
  "join sep [] = []"
| "join sep [x] = x"
| "join sep (x # y # ys) = x @ sep @ join sep (y # ys)"

text \<open>\<open>s.startswith(p)\<close>.\<close>

definition startswith :: "string \<Rightarrow> string \<Rightarrow> bool" where
  "startswith s p = (take (length p) s = p)"

text \<open>\<open>str.encode()\<close>, UTF-8: one byte below U+0080, two bytes from there to U+00FF.\<close>

type_synonym byte = "8 word"

definition utf8_char :: "char \<Rightarrow> byte list" where
  "utf8_char c =
     (if cp c < 128 then [of_nat (cp c)]
      else [of_nat (192 + cp c div 64), of_nat (128 + cp c mod 64)])"

definition encode :: "string \<Rightarrow> byte list" where
  "encode s = concat (map utf8_char s)"

subsection \<open>hashlib.md5\<close>

text \<open>MD5 as RFC 1321 defines it: the padding, the blocks of sixteen little-endian words,
  the four rounds of sixteen steps, and the digest in lower-case hexadecimal.\<close>

definition md5_pad :: "byte list \<Rightarrow> byte list" where
  "md5_pad m =
     m @ [0x80] @ replicate (nat ((55 - int (length m)) mod 64)) 0
       @ map (\<lambda>i. ucast (drop_bit (8 * i) (of_nat (8 * length m) :: 64 word))) [0..<8]"

definition le32 :: "byte list \<Rightarrow> 32 word" where
  "le32 bs = foldr (\<lambda>b acc. or (ucast b) (push_bit 8 acc)) bs 0"

definition md5_K :: "32 word list" where
  "md5_K =
     [0xd76aa478, 0xe8c7b756, 0x242070db, 0xc1bdceee, 0xf57c0faf, 0x4787c62a, 0xa8304613, 0xfd469501,
      0x698098d8, 0x8b44f7af, 0xffff5bb1, 0x895cd7be, 0x6b901122, 0xfd987193, 0xa679438e, 0x49b40821,
      0xf61e2562, 0xc040b340, 0x265e5a51, 0xe9b6c7aa, 0xd62f105d, 0x02441453, 0xd8a1e681, 0xe7d3fbc8,
      0x21e1cde6, 0xc33707d6, 0xf4d50d87, 0x455a14ed, 0xa9e3e905, 0xfcefa3f8, 0x676f02d9, 0x8d2a4c8a,
      0xfffa3942, 0x8771f681, 0x6d9d6122, 0xfde5380c, 0xa4beea44, 0x4bdecfa9, 0xf6bb4b60, 0xbebfbc70,
      0x289b7ec6, 0xeaa127fa, 0xd4ef3085, 0x04881d05, 0xd9d4d039, 0xe6db99e5, 0x1fa27cf8, 0xc4ac5665,
      0xf4292244, 0x432aff97, 0xab9423a7, 0xfc93a039, 0x655b59c3, 0x8f0ccc92, 0xffeff47d, 0x85845dd1,
      0x6fa87e4f, 0xfe2ce6e0, 0xa3014314, 0x4e0811a1, 0xf7537e82, 0xbd3af235, 0x2ad7d2bb, 0xeb86d391]"

definition md5_s :: "nat list" where
  "md5_s =
     [7, 12, 17, 22, 7, 12, 17, 22, 7, 12, 17, 22, 7, 12, 17, 22,
      5, 9, 14, 20, 5, 9, 14, 20, 5, 9, 14, 20, 5, 9, 14, 20,
      4, 11, 16, 23, 4, 11, 16, 23, 4, 11, 16, 23, 4, 11, 16, 23,
      6, 10, 15, 21, 6, 10, 15, 21, 6, 10, 15, 21, 6, 10, 15, 21]"

type_synonym md5_state = "32 word \<times> 32 word \<times> 32 word \<times> 32 word"

definition rotl32 :: "32 word \<Rightarrow> nat \<Rightarrow> 32 word" where
  "rotl32 x n = or (push_bit n x) (drop_bit (32 - n) x)"

definition md5_step :: "32 word list \<Rightarrow> nat \<Rightarrow> md5_state \<Rightarrow> md5_state" where
  "md5_step ws i st =
     (case st of (a, b, c, d) \<Rightarrow>
        let f = (if i < 16 then or (and b c) (and (not b) d)
                 else if i < 32 then or (and d b) (and (not d) c)
                 else if i < 48 then xor b (xor c d)
                 else xor c (or b (not d)));
            g = (if i < 16 then i
                 else if i < 32 then (5 * i + 1) mod 16
                 else if i < 48 then (3 * i + 5) mod 16
                 else (7 * i) mod 16)
        in (d, b + rotl32 (a + f + md5_K ! i + ws ! g) (md5_s ! i), b, c))"

definition md5_block :: "md5_state \<Rightarrow> byte list \<Rightarrow> md5_state" where
  "md5_block st blk =
     (let ws = map (\<lambda>j. le32 (take 4 (drop (4 * j) blk))) [0..<16] in
      case st of (a0, b0, c0, d0) \<Rightarrow>
        (case fold (md5_step ws) [0..<64] st of (a, b, c, d) \<Rightarrow>
           (a0 + a, b0 + b, c0 + c, d0 + d)))"

definition md5 :: "byte list \<Rightarrow> md5_state" where
  "md5 m =
     (let p = md5_pad m in
      fold (\<lambda>k st. md5_block st (take 64 (drop (64 * k) p))) [0..<length p div 64]
        (0x67452301, 0xefcdab89, 0x98badcfe, 0x10325476))"

definition hex_byte :: "byte \<Rightarrow> string" where
  "hex_byte b = [''0123456789abcdef'' ! unat (drop_bit 4 b), ''0123456789abcdef'' ! unat (and b 15)]"

definition hex_le32 :: "32 word \<Rightarrow> string" where
  "hex_le32 w = concat (map (\<lambda>i. hex_byte (ucast (drop_bit (8 * i) w))) [0..<4])"

definition hexdigest :: "md5_state \<Rightarrow> string" where
  "hexdigest st = (case st of (a, b, c, d) \<Rightarrow> hex_le32 a @ hex_le32 b @ hex_le32 c @ hex_le32 d)"

subsection \<open>base64.b64encode\<close>

definition b64_char :: "24 word \<Rightarrow> char" where
  "b64_char n =
     ''ABCDEFGHIJKLMNOPQRSTUVWXYZabcdefghijklmnopqrstuvwxyz0123456789+/'' ! unat (and n 63)"

definition b64_group :: "byte \<Rightarrow> byte \<Rightarrow> byte \<Rightarrow> 24 word" where
  "b64_group a b c = or (push_bit 16 (ucast a)) (or (push_bit 8 (ucast b)) (ucast c))"

fun b64encode :: "byte list \<Rightarrow> string" where
  "b64encode [] = []"
| "b64encode [a] =
     (let n = b64_group a 0 0 in
      [b64_char (drop_bit 18 n), b64_char (drop_bit 12 n), CHR ''='', CHR ''=''])"
| "b64encode [a, b] =
     (let n = b64_group a b 0 in
      [b64_char (drop_bit 18 n), b64_char (drop_bit 12 n), b64_char (drop_bit 6 n), CHR ''=''])"
| "b64encode (a # b # c # rest) =
     (let n = b64_group a b c in
      [b64_char (drop_bit 18 n), b64_char (drop_bit 12 n), b64_char (drop_bit 6 n), b64_char n]
        @ b64encode rest)"

section \<open>message.py: messages\<close>

text \<open>
  A value that the program only tests for truth and renders: \<open>None\<close>, a string, or any
  other value, given by its truth value and by the texts that \<open>str()\<close> and
  \<open>json.dumps(..., ensure_ascii=False)\<close> produce for it.
\<close>

datatype pyval = PNone | PStr string | POther bool string string

fun py_truthy :: "pyval \<Rightarrow> bool" where
  "py_truthy PNone = False"
| "py_truthy (PStr s) = (s \<noteq> [])"
| "py_truthy (POther t s j) = t"

text \<open>\<open>str(v)\<close>, which is also what an f-string inserts for \<open>{v}\<close>.\<close>

fun py_str :: "pyval \<Rightarrow> string" where
  "py_str PNone = ''None''"
| "py_str (PStr s) = s"
| "py_str (POther t s j) = s"

text \<open>
  The content of a message, by the classes that the \<open>isinstance\<close> tests tell apart: a
  string, a list of parts (parsed JSON), \<open>None\<close>, a dict (its \<open>str()\<close> and \<open>json.dumps\<close>
  texts) or any other value (its \<open>str()\<close> text).
\<close>

datatype content =
    CStr string
  | CList "json list"
  | CNone
  | CDict string string
  | COther string

text \<open>A message as \<open>get_conversation_key\<close> receives it: a dict that may lack either key.\<close>

record message_dict =
  md_role :: "pyval option"
  md_content :: "content option"

text \<open>A tool call of an assistant message; \<open>tc_function\<close> is its \<open>function\<close> entry when
  that is a dict.\<close>

record tool_function =
  tf_name :: pyval
  tf_arguments :: pyval

record tool_call =
  tc_function :: "tool_function option"
  tc_name :: pyval
  tc_arguments :: pyval

text \<open>A \<open>function_call\<close> dict; \<open>fc_arguments\<close> is \<open>None\<close> when the key is missing.\<close>

record function_call =
  fc_name :: pyval
  fc_arguments :: "pyval option"

text \<open>A \<open>Message\<close> object, as \<open>parse_last_message\<close> and \<open>build_full_context_text\<close> read it.\<close>

record message =
  m_role :: "string option"
  m_content :: content
  m_name :: "string option"
  m_tool_call_id :: "string option"
  m_tool_calls :: "tool_call list option"
  m_function_call :: "function_call option"

text \<open>\<open>x or d\<close> for an optional string.\<close>

definition str_or :: "string option \<Rightarrow> string \<Rightarrow> string" where
  "str_or x d = (case x of None \<Rightarrow> d | Some s \<Rightarrow> if s = [] then d else s)"

text \<open>\<open>d.get(k, default)\<close>: the default only for a missing key.\<close>

definition dict_get_default :: "(string \<times> json) list \<Rightarrow> string \<Rightarrow> json \<Rightarrow> json" where
  "dict_get_default d k dflt = (case map_of d k of None \<Rightarrow> dflt | Some v \<Rightarrow> v)"

section \<open>message.py: extract\_text\_from\_content\<close>

text \<open>
  The list comprehension \<open>[x.get("text", "") for x in content if x.get("type") == "text"]\<close>:
  \<open>x.get\<close> raises \<open>AttributeError\<close> on a part that is not a dict.
\<close>

fun text_parts :: "json list \<Rightarrow> py_error + json list" where
  "text_parts [] = Inr []"
| "text_parts (JObj d # xs) =
     (case text_parts xs of
        Inl e \<Rightarrow> Inl e
      | Inr rest \<Rightarrow>
          if dict_get d ''type'' = JStr ''text''
          then Inr (dict_get_default d ''text'' (JStr []) # rest)
          else Inr rest)"
| "text_parts (x # xs) = Inl AttributeError"

text \<open>\<open>"".join(xs)\<close> raises \<open>TypeError\<close> on an item that is not a string.\<close>

fun join_texts :: "json list \<Rightarrow> py_error + string" where
  "join_texts [] = Inr []"
| "join_texts (JStr s # xs) = (case join_texts xs of Inl e \<Rightarrow> Inl e | Inr rest \<Rightarrow> Inr (s @ rest))"
| "join_texts (x # xs) = Inl TypeError"

definition extract_text_from_content :: "content \<Rightarrow> py_error + string" where
  "extract_text_from_content c =
     (case c of
        CStr s \<Rightarrow> Inr s
      | CList parts \<Rightarrow> (case text_parts parts of Inl e \<Rightarrow> Inl e | Inr ts \<Rightarrow> join_texts ts)
      | CNone \<Rightarrow> Inr []
      | CDict st js \<Rightarrow> Inr st
      | COther st \<Rightarrow> Inr st)"

section \<open>message.py: get\_conversation\_key\<close>

text \<open>
  The body of the loop: the entry \<open>role:text\<close> of one message. A content that is a list
  goes through \<open>extract_text_from_content\<close>, any other through \<open>str()\<close>, so \<open>None\<close>
  gives the text \<open>None\<close> here.
\<close>

definition message_fingerprint :: "message_dict \<Rightarrow> py_error + string" where
  "message_fingerprint msg =
     (let role = (case md_role msg of None \<Rightarrow> PStr [] | Some r \<Rightarrow> r);
          c = (case md_content msg of None \<Rightarrow> CStr [] | Some x \<Rightarrow> x)
      in case (case c of
                 CList parts \<Rightarrow> extract_text_from_content c
               | CStr s \<Rightarrow> Inr s
               | CNone \<Rightarrow> Inr ''None''
               | CDict st js \<Rightarrow> Inr st
               | COther st \<Rightarrow> Inr st) of
           Inl e \<Rightarrow> Inl e
         | Inr text \<Rightarrow> Inr (py_str role @ '':'' @ lower (strip text)))"

text \<open>The loop \<open>for msg in messages[:3]\<close>; it ends at the first exception.\<close>

fun message_fingerprints :: "message_dict list \<Rightarrow> py_error + string list" where
  "message_fingerprints [] = Inr []"
| "message_fingerprints (m # ms) =
     (case message_fingerprint m of
        Inl e \<Rightarrow> Inl e
      | Inr f \<Rightarrow> (case message_fingerprints ms of Inl e \<Rightarrow> Inl e | Inr fs \<Rightarrow> Inr (f # fs)))"

text \<open>The string that is hashed, for a list of messages that is not empty.\<close>

definition conversation_prefix :: "message_dict list \<Rightarrow> string \<Rightarrow> py_error + string" where
  "conversation_prefix messages client_identifier =
     (case message_fingerprints (take 3 messages) of
        Inl e \<Rightarrow> Inl e
      | Inr fs \<Rightarrow>
          Inr (if client_identifier \<noteq> [] then client_identifier @ ''|'' @ join ''|'' fs
               else join ''|'' fs))"

definition get_conversation_key :: "message_dict list \<Rightarrow> string \<Rightarrow> py_error + string" where
  "get_conversation_key messages client_identifier =
     (if messages = []
      then Inr (if client_identifier \<noteq> [] then client_identifier @ '':empty'' else ''empty'')
      else case conversation_prefix messages client_identifier of
             Inl e \<Rightarrow> Inl e
           | Inr p \<Rightarrow> Inr (hexdigest (md5 (encode p))))"

section \<open>message.py: format\_tool\_calls\_text\<close>

definition tool_call_line :: "tool_call \<Rightarrow> string" where
  "tool_call_line tc =
     (let fname = (case tc_function tc of None \<Rightarrow> PNone | Some f \<Rightarrow> tf_name f);
          name = (if py_truthy fname then py_str fname
                  else if py_truthy (tc_name tc) then py_str (tc_name tc)
                  else ''unknown_tool'');
          args0 = (case tc_function tc of None \<Rightarrow> PNone | Some f \<Rightarrow> tf_arguments f);
          arguments = (if args0 = PNone then tc_arguments tc else args0);
          args_text = (case arguments of
                         PStr s \<Rightarrow> s
                       | PNone \<Rightarrow> ''{}''
                       | POther t s j \<Rightarrow> j)
      in name @ '': '' @ args_text)"

definition format_tool_calls_text :: "tool_call list \<Rightarrow> string" where
  "format_tool_calls_text tool_calls = join ''\<newline>'' (map tool_call_line tool_calls)"

section \<open>message.py: parse\_last\_message\<close>

record attachment =
  mime :: string
  data :: string

text \<open>
  \<open>re.match(r"data:([^;]+);base64,(.+)", url)\<close>. The match starts at the first character.
  The first group cannot hold a semicolon and is followed by one, so it is the text up to
  the first semicolon; the second group is greedy and \<open>.\<close> matches every character but
  the newline, so it is the text up to the first newline. Both must not be empty.
\<close>

definition match_data_uri :: "string \<Rightarrow> (string \<times> string) option" where
  "match_data_uri url =
     (if startswith url ''data:'' then
        (let rest = drop 5 url;
             m = takeWhile (\<lambda>c. c \<noteq> CHR '';'') rest;
             rest2 = drop (length m) rest
         in if m \<noteq> [] \<and> startswith rest2 '';base64,'' then
              (let d = takeWhile (\<lambda>c. c \<noteq> CHR ''\<newline>'') (drop 8 rest2)
               in if d \<noteq> [] then Some (m, d) else None)
            else None)
      else None)"

text \<open>
  The state of the loop over the parts: \<open>text_content\<close>, \<open>images\<close> and \<open>image_urls\<close>.
\<close>

type_synonym parts_state = "string \<times> attachment list \<times> string list"

text \<open>
  One part. \<open>part.get\<close> raises \<open>AttributeError\<close> when the part, or its \<open>image_url\<close> entry,
  is not a dict; \<open>+=\<close> and \<open>re.match\<close> raise \<open>TypeError\<close> on a value that is not a string.
  A URL of no supported shape is logged and dropped.
\<close>

definition scan_part :: "json \<Rightarrow> parts_state \<Rightarrow> py_error + parts_state" where
  "scan_part part st =
     (case st of (text_content, images, image_urls) \<Rightarrow>
        (case part of
           JObj d \<Rightarrow>
             if dict_get d ''type'' = JStr ''text'' then
               (case dict_get_default d ''text'' (JStr []) of
                  JStr s \<Rightarrow> Inr (text_content @ s, images, image_urls)
                | other \<Rightarrow> Inl TypeError)
             else if dict_get d ''type'' = JStr ''image_url'' then
               (case dict_get_default d ''image_url'' (JObj []) of
                  JObj iu \<Rightarrow>
                    (case dict_get_default iu ''url'' (JStr []) of
                       JStr url \<Rightarrow>
                         (case match_data_uri url of
                            Some (m, b) \<Rightarrow>
                              Inr (text_content, images @ [\<lparr> mime = m, data = b \<rparr>], image_urls)
                          | None \<Rightarrow>
                              if startswith url ''http://'' \<or> startswith url ''https://''
                              then Inr (text_content, images, image_urls @ [url])
                              else Inr (text_content, images, image_urls))
                     | other \<Rightarrow> Inl TypeError)
                | other \<Rightarrow> Inl AttributeError)
             else Inr st
         | other \<Rightarrow> Inl AttributeError))"

fun scan_parts :: "json list \<Rightarrow> parts_state \<Rightarrow> py_error + parts_state" where
  "scan_parts [] st = Inr st"
| "scan_parts (p # ps) st =
     (case scan_part p st of Inl e \<Rightarrow> Inl e | Inr st1 \<Rightarrow> scan_parts ps st1)"

text \<open>The three \<open>isinstance\<close> branches on the content.\<close>

definition split_content :: "content \<Rightarrow> py_error + parts_state" where
  "split_content c =
     (case c of
        CStr s \<Rightarrow> Inr (s, [], [])
      | CDict st js \<Rightarrow> Inr (js, [], [])
      | CList parts \<Rightarrow> scan_parts parts ([], [], [])
      | other \<Rightarrow> Inr ([], [], []))"

text \<open>The text with the context of a \<open>tool\<close> or \<open>assistant\<close> message around it.\<close>

definition with_role_context :: "message \<Rightarrow> string \<Rightarrow> string" where
  "with_role_context last_msg text_content =
     (let role_lower = lower (str_or (m_role last_msg) []) in
      if role_lower = ''tool'' then
        (let tool_name = str_or (m_name last_msg) ''tool'';
             call_part = (case m_tool_call_id last_msg of
                            None \<Rightarrow> []
                          | Some i \<Rightarrow> if i \<noteq> [] then '' ('' @ i @ '')'' else [])
         in ''Tool result from '' @ tool_name @ call_part @ '':\<newline>'' @ text_content)
      else if role_lower = ''assistant'' then
        (let assistant_tool_calls = (case m_tool_calls last_msg of None \<Rightarrow> [] | Some tcs \<Rightarrow> tcs);
             rest = (if text_content \<noteq> [] then ''\<newline>'' @ text_content else [])
         in if assistant_tool_calls \<noteq> [] then
              ''Assistant requested tool calls:\<newline>'' @ format_tool_calls_text assistant_tool_calls @ rest
            else
              (case m_function_call last_msg of
                 None \<Rightarrow> text_content
               | Some fc \<Rightarrow>
                   if py_truthy (fc_name fc) then
                     ''Assistant requested function call: '' @ py_str (fc_name fc) @ ''(''
                       @ (case fc_arguments fc of None \<Rightarrow> ''{}'' | Some a \<Rightarrow> py_str a) @ '')'' @ rest
                   else text_content))
      else text_content)"

text \<open>
  The HTTP client is a parameter: \<open>fetch i url\<close> is the outcome of the \<open>GET\<close> for the
  \<open>i\<close>-th queued URL, a response (status, \<open>content-type\<close> header, body) or an exception.
\<close>

record http_response =
  h_status :: int
  h_content_type :: "string option"
  h_content :: "byte list"

type_synonym http_get = "nat \<Rightarrow> string \<Rightarrow> py_error + http_response"

text \<open>
  \<open>download_url\<close>: \<open>None\<close> for a 404, for a status for which \<open>raise_for_status\<close> raises
  (every status outside 200 to 299) and for an exception of the request.
\<close>

definition download_url :: "http_get \<Rightarrow> nat \<Rightarrow> string \<Rightarrow> attachment option" where
  "download_url fetch i url =
     (case fetch i url of
        Inl e \<Rightarrow> None
      | Inr resp \<Rightarrow>
          if h_status resp = 404 then None
          else if \<not> (200 \<le> h_status resp \<and> h_status resp \<le> 299) then None
          else Some \<lparr> mime = takeWhile (\<lambda>c. c \<noteq> CHR '';'')
                                (case h_content_type resp of
                                   None \<Rightarrow> ''application/octet-stream''
                                 | Some t \<Rightarrow> t),
                        data = b64encode (h_content resp) \<rparr>)"

text \<open>
  \<open>asyncio.gather\<close> returns the results in the order of the URLs. No download raises, so
  \<open>safe_results\<close> is this list.
\<close>

definition gather_downloads :: "http_get \<Rightarrow> string list \<Rightarrow> attachment option list" where
  "gather_downloads fetch image_urls = map (\<lambda>(i, u). download_url fetch i u) (enumerate 0 image_urls)"

text \<open>
  \<open>parse_last_message\<close> returns the text and the attachments; the model adds the list of
  the URLs it requested.
\<close>

definition parse_last_message ::
  "http_get \<Rightarrow> message list \<Rightarrow> py_error + ((string \<times> attachment list) \<times> string list)" where
  "parse_last_message fetch messages =
     (if messages = [] then Inr (([], []), [])
      else
        (let last_msg = last messages in
         case split_content (m_content last_msg) of
           Inl e \<Rightarrow> Inl e
         | Inr (text_content, images, image_urls) \<Rightarrow>
             Inr ((with_role_context last_msg text_content,
                   images @ map the (filter (\<lambda>r. r \<noteq> None) (gather_downloads fetch image_urls))),
                  image_urls)))"

section \<open>message.py: build\_full\_context\_text\<close>

text \<open>
  The marker that the source appends for each image part is a literal with two CJK code
  points, outside the range of \<open>char\<close>: it is the parameter \<open>marker\<close>.
\<close>

definition role_label :: "message \<Rightarrow> string" where
  "role_label msg =
     (let role_lower = lower (str_or (m_role msg) []) in
      if role_lower = ''system'' then ''System''
      else if role_lower = ''user'' then ''User''
      else if role_lower = ''tool'' then ''Tool['' @ str_or (m_name msg) ''tool'' @ '']''
      else if role_lower = ''assistant'' then ''Assistant''
      else str_or (m_role msg) ''Assistant'')"

definition with_call_annotation :: "message \<Rightarrow> string \<Rightarrow> string" where
  "with_call_annotation msg content_str =
     (if lower (str_or (m_role msg) []) = ''assistant'' then
        (let assistant_tool_calls = (case m_tool_calls msg of None \<Rightarrow> [] | Some tcs \<Rightarrow> tcs);
             head = (if content_str \<noteq> [] then content_str @ ''\<newline>'' else [])
         in if assistant_tool_calls \<noteq> [] then
              head @ ''Tool calls:\<newline>'' @ format_tool_calls_text assistant_tool_calls
            else
              (case m_function_call msg of
                 None \<Rightarrow> content_str
               | Some fc \<Rightarrow>
                   if py_truthy (fc_name fc) then
                     head @ ''Function call: '' @ py_str (fc_name fc) @ ''(''
                       @ (case fc_arguments fc of None \<Rightarrow> ''{}'' | Some a \<Rightarrow> py_str a) @ '')''
                   else content_str))
      else content_str)"

text \<open>The number of image parts; \<open>part.get\<close> raises on a part that is not a dict.\<close>

fun image_count :: "json list \<Rightarrow> py_error + nat" where
  "image_count [] = Inr 0"
| "image_count (JObj d # ps) =
     (case image_count ps of
        Inl e \<Rightarrow> Inl e
      | Inr n \<Rightarrow> Inr (if dict_get d ''type'' = JStr ''image_url'' then Suc n else n))"
| "image_count (p # ps) = Inl AttributeError"

definition render_message :: "string \<Rightarrow> message \<Rightarrow> py_error + string" where
  "render_message marker msg =
     (case extract_text_from_content (m_content msg) of
        Inl e \<Rightarrow> Inl e
      | Inr content_str0 \<Rightarrow>
          (let content_str = with_call_annotation msg content_str0 in
           case (case m_content msg of CList parts \<Rightarrow> image_count parts | other \<Rightarrow> Inr 0) of
             Inl e \<Rightarrow> Inl e
           | Inr n \<Rightarrow>
               Inr (role_label msg @ '': '' @ content_str @ concat (replicate n marker)
                      @ ''\<newline>\<newline>'')))"

fun build_full_context_text :: "string \<Rightarrow> message list \<Rightarrow> py_error + string" where
  "build_full_context_text marker [] = Inr []"
| "build_full_context_text marker (msg # msgs) =
     (case render_message marker msg of
        Inl e \<Rightarrow> Inl e
      | Inr line \<Rightarrow>
          (case build_full_context_text marker msgs of
             Inl e \<Rightarrow> Inl e
           | Inr rest \<Rightarrow> Inr (line @ rest)))"

section \<open>What the specification calls an address in the body\<close>

text \<open>
  The response body "contains a non-empty email or mailbox field": it is not empty, it
  parses to an object, and one of the two fields is true in Python's sense. The address
  is the \<open>email\<close> field when that one is true, else the \<open>mailbox\<close> field.
\<close>

definition has_address :: "response \<Rightarrow> bool" where
  "has_address r =
     (case json_body r of
        Inr (JObj d) \<Rightarrow> content r \<noteq> [] \<and> (truthy (dict_get d ''email'') \<or> truthy (dict_get d ''mailbox''))
      | _ \<Rightarrow> False)"

definition address_of :: "response \<Rightarrow> json" where
  "address_of r =
     (case json_body r of
        Inr (JObj d) \<Rightarrow> if truthy (dict_get d ''email'') then dict_get d ''email''
                        else dict_get d ''mailbox''
      | _ \<Rightarrow> JNull)"

section \<open>What the specification says of the image parts\<close>

text \<open>
  A part \<open>{"type": "image_url", "image_url": {"url": u}}\<close>; of a list of their URLs, the
  attachments of the ones that match the data-URI pattern, and the ones with an \<open>http\<close> or
  \<open>https\<close> scheme, which are queued for download. A URL of neither kind is in neither
  list.
\<close>

definition image_part :: "string \<Rightarrow> json" where
  "image_part u = JObj [(''type'', JStr ''image_url''), (''image_url'', JObj [(''url'', JStr u)])]"

definition inline_of :: "string list \<Rightarrow> attachment list" where
  "inline_of us =
     concat (map (\<lambda>u. case match_data_uri u of
                          Some (m, d) \<Rightarrow> [\<lparr> mime = m, data = d \<rparr>]
                        | None \<Rightarrow> []) us)"

definition queued_of :: "string list \<Rightarrow> string list" where
  "queued_of us =
     filter (\<lambda>u. match_data_uri u = None \<and> (startswith u ''http://'' \<or> startswith u ''https://'')) us"

text \<open>
  For any part of a content list: the text it adds (a part tagged \<open>text\<close>), the URL it
  carries (a part tagged \<open>image_url\<close>, whatever other keys it has), and whether the
  program can read it at all: the part is a dict, the text of a text part is a string,
  and the \<open>image_url\<close> entry of an image part is a dict whose \<open>url\<close> is a string. Missing
  entries count with their defaults, an empty text and an empty URL.
\<close>

definition part_text :: "json \<Rightarrow> string" where
  "part_text p =
     (case p of
        JObj d \<Rightarrow>
          if dict_get d ''type'' = JStr ''text''
          then (case dict_get_default d ''text'' (JStr []) of JStr s \<Rightarrow> s | other \<Rightarrow> [])
          else []
      | other \<Rightarrow> [])"

definition part_urls :: "json \<Rightarrow> string list" where
  "part_urls p =
     (case p of
        JObj d \<Rightarrow>
          if dict_get d ''type'' = JStr ''image_url''
          then (case dict_get_default d ''image_url'' (JObj []) of
                  JObj iu \<Rightarrow> (case dict_get_default iu ''url'' (JStr []) of JStr u \<Rightarrow> [u] | other \<Rightarrow> [])
                | other \<Rightarrow> [])
          else []
      | other \<Rightarrow> [])"

definition is_str :: "json \<Rightarrow> bool" where
  "is_str v = (case v of JStr s \<Rightarrow> True | other \<Rightarrow> False)"

definition part_ok :: "json \<Rightarrow> bool" where
  "part_ok p =
     (case p of
        JObj d \<Rightarrow>
          if dict_get d ''type'' = JStr ''text'' then is_str (dict_get_default d ''text'' (JStr []))
          else if dict_get d ''type'' = JStr ''image_url''
          then (case dict_get_default d ''image_url'' (JObj []) of
                  JObj iu \<Rightarrow> is_str (dict_get_default iu ''url'' (JStr []))
                | other \<Rightarrow> False)
          else True
      | other \<Rightarrow> False)"

definition urls_of :: "json list \<Rightarrow> string list" where
  "urls_of parts = concat (map part_urls parts)"

definition text_of :: "json list \<Rightarrow> string" where
  "text_of parts = concat (map part_text parts)"


section \<open>Example inputs\<close>

text \<open>
  A client with a token, and a server that answers 401 unless the token is in the query,
  405 to \<open>GET\<close>, and 201 with a new address to \<open>POST\<close>. The constructor has already
  stripped the token and the trailing slashes of the base URL.
\<close>

definition demo_client :: client where
  "demo_client = \<lparr> base_url = ''http://mail.test'', jwt_token = ''tok'', verify_ssl = True,
                    proxies = None, email = JNull \<rparr>"

definition demo_response :: "int \<Rightarrow> response" where
  \<open>demo_response st =
     (if st = 201
      then \<lparr> status_code = 201, content = ''{"email": "a@mail.test"}'',
             json_body = Inr (JObj [(''email'', JStr ''a@mail.test'')]) \<rparr>
      else \<lparr> status_code = st, content = [], json_body = Inl JSONDecodeError \<rparr>)\<close>

definition demo_transport :: transport where
  "demo_transport h req =
     (case req_params req of
        None \<Rightarrow> Inr (demo_response 401)
      | Some p \<Rightarrow>
          if p ''admin_token'' \<noteq> Some ''tok'' then Inr (demo_response 401)
          else if req_method req = ''GET'' then Inr (demo_response 405)
          else Inr (demo_response 201))"

text \<open>A transport that always raises.\<close>

definition failing_transport :: transport where
  "failing_transport h req = Inl RequestException"

text \<open>
  A \<open>datetime\<close> library for the examples, on a host whose local zone is UTC. It turns the
  timestamps from 1970 to the end of the year 9999 into instants, rounding to the nearest
  microsecond (a half to the even one), and raises \<open>ValueError\<close> outside this range. It
  is not CPython's: that one also reads timestamps before 1970, and raises \<open>OverflowError\<close>
  or \<open>OSError\<close> instead of \<open>ValueError\<close> far above the range. It reads no ISO string: the
  examples with this library are numeric, with timestamps from 1970 on.
\<close>

definition round_half_even :: "rat \<Rightarrow> int" where
  "round_half_even x =
     (let f = \<lfloor>x\<rfloor>; d = x - of_int f in
      if d < 1 / 2 then f else if 1 / 2 < d then f + 1 else if even f then f else f + 1)"

definition numeric_lib :: datetime_lib where
  "numeric_lib =
     \<lparr> local_from_timestamp =
         (\<lambda>t. if 0 \<le> t \<and> t < 253402300800
              then Inr (nat (round_half_even (t * 10 ^ 6) + 62135596800 * 10 ^ 6))
              else Inl ValueError),
       fromisoformat = (\<lambda>s. Inl ValueError),
       to_local = (\<lambda>w off. if off * 10 ^ 6 \<le> int w then Inr (nat (int w - off * 10 ^ 6))
                              else Inl OverflowError) \<rparr>"

text \<open>A user message with the text \<open>" Hi "\<close>, and an assistant message.\<close>

definition user_hi :: message_dict where
  "user_hi = \<lparr> md_role = Some (PStr ''user''), md_content = Some (CStr '' Hi '') \<rparr>"


text \<open>
  Messages and a server for the examples: one file is gone (404), one is a PNG with the
  three bytes \<open>ABC\<close>, and every other request fails in the network.
\<close>

definition user_message :: "content \<Rightarrow> message" where
  "user_message c = \<lparr> m_role = Some ''user'', m_content = c, m_name = None,
     m_tool_call_id = None, m_tool_calls = None, m_function_call = None \<rparr>"

definition tool_message :: message where
  "tool_message = \<lparr> m_role = Some ''tool'', m_content = CStr ''42'', m_name = Some ''search'',
     m_tool_call_id = Some ''call_1'', m_tool_calls = None, m_function_call = None \<rparr>"

text \<open>A content with a text part, a data URI with a further key, and three other URLs.\<close>

definition mixed_parts :: "json list" where
  "mixed_parts =
     [JObj [(''type'', JStr ''text''), (''text'', JStr ''look'')],
      JObj [(''type'', JStr ''image_url''),
            (''image_url'', JObj [(''url'', JStr ''data:text/plain;base64,aGk=''), (''detail'', JStr ''high'')])],
      image_part ''http://files.test/gone'',
      JObj [(''type'', JStr ''text''), (''text'', JStr '' here'')],
      image_part ''ftp://files.test/x'',
      image_part ''https://files.test/abc.png'']"

definition demo_fetch :: http_get where
  "demo_fetch i url =
     (if url = ''http://files.test/gone''
      then Inr \<lparr> h_status = 404, h_content_type = None, h_content = [] \<rparr>
      else if url = ''https://files.test/abc.png''
      then Inr \<lparr> h_status = 200, h_content_type = Some ''image/png; charset=binary'',
                 h_content = [0x41, 0x42, 0x43] \<rparr>
      else Inl RequestException)"

chapter \<open>Properties\<close>

section \<open>The polling loop\<close>

lemma poll_loop_found:
  assumes "0 \<le> interval" and "i \<le> k" and "k \<le> n" and "truthy_code (fetch k)"
    and "\<forall>j. i \<le> j \<and> j < k \<longrightarrow> \<not> truthy_code (fetch j)"
  shows "poll_loop fetch interval n i tr
         = (Inr (fetch k), tr @ concat (replicate (k - i) [Fetch, Sleep interval]) @ [Fetch])"
  using assms
proof (induction "k - i" arbitrary: i tr)
  case 0
  then have "i = k" by simp
  with 0 show ?case by (simp add: poll_loop.simps [of fetch interval n k])
next
  case (Suc d)
  then have lt: "i < k" and nf: "\<not> truthy_code (fetch i)" by auto
  have step: "poll_loop fetch interval n i tr
              = poll_loop fetch interval n (Suc i) (tr @ [Fetch, Sleep interval])"
    using lt nf Suc.prems by (simp add: poll_loop.simps [of fetch interval n i])
  have "poll_loop fetch interval n (Suc i) (tr @ [Fetch, Sleep interval])
        = (Inr (fetch k), (tr @ [Fetch, Sleep interval])
             @ concat (replicate (k - Suc i) [Fetch, Sleep interval]) @ [Fetch])"
    using Suc by (intro Suc.hyps(1)) auto
  moreover have "k - i = Suc (k - Suc i)" using lt by simp
  ultimately show ?case using step by simp
qed

lemma poll_loop_exhausted:
  assumes "0 \<le> interval" and "1 \<le> i" and "i \<le> n"
    and "\<forall>j. i \<le> j \<and> j \<le> n \<longrightarrow> \<not> truthy_code (fetch j)"
  shows "poll_loop fetch interval n i tr
         = (Inr None, tr @ concat (replicate (n - i) [Fetch, Sleep interval]) @ [Fetch])"
  using assms
proof (induction "n - i" arbitrary: i tr)
  case 0
  then have "i = n" by simp
  with 0 show ?case
    by (simp add: poll_loop.simps [of fetch interval n n]
        poll_loop.simps [of fetch interval n "Suc n"])
next
  case (Suc d)
  then have lt: "i < n" and nf: "\<not> truthy_code (fetch i)" by auto
  have step: "poll_loop fetch interval n i tr
              = poll_loop fetch interval n (Suc i) (tr @ [Fetch, Sleep interval])"
    using lt nf Suc.prems by (simp add: poll_loop.simps [of fetch interval n i])
  have "poll_loop fetch interval n (Suc i) (tr @ [Fetch, Sleep interval])
        = (Inr None, (tr @ [Fetch, Sleep interval])
             @ concat (replicate (n - Suc i) [Fetch, Sleep interval]) @ [Fetch])"
    using Suc by (intro Suc.hyps(1)) auto
  moreover have "n - i = Suc (n - Suc i)" using lt by simp
  ultimately show ?case using step by simp
qed

lemma count_rounds:
  "count_list (concat (replicate m [Fetch, Sleep interval])) Fetch = m"
  "count_list (concat (replicate m [Fetch, Sleep interval])) (Sleep interval) = m"
  by (induction m) auto

lemma count_attempts:
  "count_list (attempts interval k) Fetch = Suc (k - 1)"
  "count_list (attempts interval k) (Sleep interval) = k - 1"
  by (simp_all add: attempts_def count_rounds)

text \<open>
  Claim C2. For a positive interval, with \<open>n = max(1, timeout div interval)\<close>:
  when none of the \<open>n\<close> calls of \<open>fetch_verification_code\<close> returns a code, \<open>poll_for_code\<close>
  returns \<open>None\<close> after exactly \<open>n\<close> calls, with a sleep of \<open>interval\<close> between consecutive calls
  and none after the last (\<open>n - 1\<close> sleeps); with \<open>timeout = 12\<close> and \<open>interval = 4\<close> these are
  3 calls and 2 sleeps; and when the \<open>k\<close>-th call is the first to return a code, that code is
  returned right after the \<open>k\<close>-th call, with no further call or sleep.
\<close>

theorem poll_for_code_attempts:
  assumes "0 < interval"
  shows "((\<forall>j. 1 \<le> j \<and> j \<le> nat (max 1 (timeout div interval)) \<longrightarrow> \<not> truthy_code (fetch j)) \<longrightarrow>
            poll_for_code fetch timeout interval
              = (Inr None, attempts interval (nat (max 1 (timeout div interval))))
          \<and> count_list (attempts interval (nat (max 1 (timeout div interval)))) Fetch
              = nat (max 1 (timeout div interval))
          \<and> count_list (attempts interval (nat (max 1 (timeout div interval)))) (Sleep interval)
              = nat (max 1 (timeout div interval)) - 1
          \<and> last (attempts interval (nat (max 1 (timeout div interval)))) = Fetch)
       \<and> ((\<forall>j. \<not> truthy_code (fetch j)) \<longrightarrow>
            poll_for_code fetch 12 4 = (Inr None, [Fetch, Sleep 4, Fetch, Sleep 4, Fetch]))
       \<and> (\<forall>k. 1 \<le> k \<and> k \<le> nat (max 1 (timeout div interval)) \<and> truthy_code (fetch k)
              \<and> (\<forall>j. 1 \<le> j \<and> j < k \<longrightarrow> \<not> truthy_code (fetch j)) \<longrightarrow>
            poll_for_code fetch timeout interval = (Inr (fetch k), attempts interval k)
          \<and> count_list (attempts interval k) Fetch = k
          \<and> count_list (attempts interval k) (Sleep interval) = k - 1
          \<and> last (attempts interval k) = Fetch)"
proof -
  define n where "n = nat (max 1 (timeout div interval))"
  have n1: "1 \<le> n" by (simp add: n_def)
  have ne: "interval \<noteq> 0" and nn: "0 \<le> interval" using assms by auto
  have a: "poll_for_code fetch timeout interval = (Inr None, attempts interval n)"
    if "\<forall>j. 1 \<le> j \<and> j \<le> n \<longrightarrow> \<not> truthy_code (fetch j)"
    using poll_loop_exhausted [where interval = interval and i = 1 and n = n
        and fetch = fetch and tr = "[]"] nn n1 that ne
    by (simp add: poll_for_code_def attempts_def n_def)
  have b: "poll_for_code fetch 12 4 = (Inr None, [Fetch, Sleep 4, Fetch, Sleep 4, Fetch])"
    if "\<forall>j. \<not> truthy_code (fetch j)"
    using poll_loop_exhausted [where interval = 4 and i = 1 and n = 3
        and fetch = fetch and tr = "[]"] that
    by (simp add: poll_for_code_def numeral_2_eq_2)
  have c: "poll_for_code fetch timeout interval = (Inr (fetch k), attempts interval k)"
    if "1 \<le> k" "k \<le> n" "truthy_code (fetch k)"
       "\<forall>j. 1 \<le> j \<and> j < k \<longrightarrow> \<not> truthy_code (fetch j)" for k
    using poll_loop_found [where interval = interval and i = 1 and k = k and n = n
        and fetch = fetch and tr = "[]"] nn that ne
    by (simp add: poll_for_code_def attempts_def n_def)
  have d: "count_list (attempts interval k) Fetch = k"
          "count_list (attempts interval k) (Sleep interval) = k - 1"
          "last (attempts interval k) = Fetch" if "1 \<le> k" for k
    using that by (simp_all add: count_attempts) (simp add: attempts_def)
  show ?thesis
    using a b c d n1 unfolding n_def [symmetric] by blast
qed

theorem poll_for_code_attempts_witness:
  "poll_for_code (\<lambda>k. None) 12 4 = (Inr None, [Fetch, Sleep 4, Fetch, Sleep 4, Fetch])
   \<and> poll_for_code (\<lambda>k. None) 3 5 = (Inr None, [Fetch])
   \<and> poll_for_code (\<lambda>k. if k = 2 then Some ''123456'' else None) 12 4
       = (Inr (Some ''123456''), [Fetch, Sleep 4, Fetch])"
proof -
  have p: "(0::int) < 4" "(0::int) < 5" by simp_all
  have n: "nat (max 1 (12 div 4)) = 3" "nat (max 1 (3 div 5)) = 1" by simp_all
  let ?f = "\<lambda>k::nat. if k = 2 then Some ''123456'' else None"
  from poll_for_code_attempts [OF p(1), of 12 "\<lambda>k. None"]
  have 1: "poll_for_code (\<lambda>k. None) 12 4 = (Inr None, attempts 4 3)"
    by (simp add: truthy_code_def)
  from poll_for_code_attempts [OF p(2), of 3 "\<lambda>k. None"]
  have 2: "poll_for_code (\<lambda>k. None) 3 5 = (Inr None, attempts 5 1)"
    by (simp add: truthy_code_def)
  from poll_for_code_attempts [OF p(1), of 12 ?f]
  have "1 \<le> (2::nat) \<and> (2::nat) \<le> nat (max 1 (12 div 4)) \<and> truthy_code (?f 2)
          \<and> (\<forall>j. 1 \<le> j \<and> j < 2 \<longrightarrow> \<not> truthy_code (?f j))
        \<longrightarrow> poll_for_code ?f 12 4 = (Inr (?f 2), attempts 4 2)"
    by blast
  then have 3: "poll_for_code ?f 12 4 = (Inr (Some ''123456''), attempts 4 2)"
    by (simp add: truthy_code_def)
  show ?thesis
    using 1 2 3 by (simp add: attempts_def numeral_3_eq_3 numeral_2_eq_2)
qed

section \<open>Requests with the header-to-query fallback\<close>

lemma build_request_fields:
  "req_method (build_request c m url q kw) = m"
  "req_url (build_request c m url q kw) = url"
  "req_params (build_request c m url False kw) = kw_params kw"
  "req_headers (build_request c m url True kw) = req_headers (build_request c m url False kw)"
  by (simp_all add: build_request_def Let_def)

lemma setdefault_defined: "setdefault d k v k \<noteq> None" "\<exists>y. setdefault d k v k = Some y"
  by (simp_all add: setdefault_def split: option.splits)

lemma setdefault_other: "k' \<noteq> k \<Longrightarrow> setdefault d k v k' = d k'"
  by (simp add: setdefault_def split: option.splits)

lemma setdefault_fresh: "d k = None \<Longrightarrow> setdefault d k v k = Some v"
  by (simp add: setdefault_def)

lemma setdefault_kept: "d k = Some old \<Longrightarrow> setdefault d k v = d"
  by (simp add: setdefault_def)

lemma fallback_cases:
  "py_request_with_auth_fallback c tr h m url kw =
     (let req1 = build_request c m url False kw; out1 = tr h req1; h1 = h @ [(req1, out1)];
          req2 = build_request c m url True kw; out2 = tr h1 req2
      in if jwt_token c \<noteq> [] \<and> (case out1 of Inl e \<Rightarrow> False | Inr res \<Rightarrow> status_code res \<in> {401, 403})
         then (out2, h1 @ [(req2, out2)]) else (out1, h1))"
  by (auto simp: py_request_with_auth_fallback_def py_request_def py_clone_request_kwargs_def
      Let_def split: sum.splits)

lemma fallback_history:
  assumes "py_request_with_auth_fallback c tr h m url kw = (out, h')"
  shows "\<exists>new. h' = h @ new \<and> (length new = 1 \<or> length new = 2)
           \<and> (\<forall>x \<in> set new. req_method (fst x) = m \<and> req_url (fst x) = url)
           \<and> snd (last new) = out"
  using assms
  by (auto simp: fallback_cases Let_def build_request_fields split: if_splits)

text \<open>
  Claim C3. The first request of \<open>_request_with_auth_fallback\<close> carries the credential in
  the headers \<open>Authorization\<close> and \<open>X-Admin-Token\<close> and adds nothing to the query. A second
  request, with \<open>admin_token\<close> in the query, is sent if and only if a credential is
  configured and the first response has status 401 or 403; its outcome is returned
  whatever its status, so a call makes at most two requests.
\<close>

theorem auth_fallback_at_most_once:
  "(let req1 = build_request c m url False kw; out1 = tr h req1; h1 = h @ [(req1, out1)];
        req2 = build_request c m url True kw; out2 = tr h1 req2;
        retry = (jwt_token c \<noteq> []
                 \<and> (case out1 of Inl e \<Rightarrow> False | Inr res \<Rightarrow> status_code res \<in> {401, 403}))
    in req_params req1 = kw_params kw
       \<and> (jwt_token c \<noteq> [] \<longrightarrow>
            req_headers req1 ''Authorization'' \<noteq> None
            \<and> req_headers req1 ''X-Admin-Token'' \<noteq> None
            \<and> (kw_headers kw = None \<longrightarrow>
                 req_headers req1 ''Authorization'' = Some (''Bearer '' @ jwt_token c)
                 \<and> req_headers req1 ''X-Admin-Token'' = Some (jwt_token c))
            \<and> (\<exists>p. req_params req2 = Some p \<and> p ''admin_token'' \<noteq> None
                 \<and> (kw_params kw = None \<longrightarrow> p ''admin_token'' = Some (jwt_token c))
                 \<and> (\<forall>q. kw_params kw = Some q \<and> q ''admin_token'' = None
                        \<longrightarrow> p ''admin_token'' = Some (jwt_token c))))
       \<and> req_headers req2 = req_headers req1
       \<and> (retry \<longrightarrow> py_request_with_auth_fallback c tr h m url kw = (out2, h @ [(req1, out1), (req2, out2)]))
       \<and> (\<not> retry \<longrightarrow> py_request_with_auth_fallback c tr h m url kw = (out1, h @ [(req1, out1)]))
       \<and> length (snd (py_request_with_auth_fallback c tr h m url kw)) \<le> length h + 2)"
proof -
  have hdr: "req_headers (build_request c m url False kw) ''Authorization'' \<noteq> None
             \<and> req_headers (build_request c m url False kw) ''X-Admin-Token'' \<noteq> None"
    if "jwt_token c \<noteq> []"
    using that by (simp add: build_request_def Let_def setdefault_defined setdefault_other)
  have hdr0: "req_headers (build_request c m url False kw) ''Authorization''
                = Some (''Bearer '' @ jwt_token c)
              \<and> req_headers (build_request c m url False kw) ''X-Admin-Token''
                = Some (jwt_token c)"
    if "jwt_token c \<noteq> []" "kw_headers kw = None"
    using that by (simp add: build_request_def Let_def setdefault_def)
  have par: "\<exists>p. req_params (build_request c m url True kw) = Some p \<and> p ''admin_token'' \<noteq> None
               \<and> (kw_params kw = None \<longrightarrow> p ''admin_token'' = Some (jwt_token c))
               \<and> (\<forall>q. kw_params kw = Some q \<and> q ''admin_token'' = None
                      \<longrightarrow> p ''admin_token'' = Some (jwt_token c))"
    if "jwt_token c \<noteq> []"
    using that
    by (auto simp: build_request_def Let_def setdefault_defined setdefault_fresh)
  show ?thesis
    unfolding Let_def
    using hdr hdr0 par
    by (simp add: build_request_fields fallback_cases Let_def)
qed

theorem auth_fallback_at_most_once_witness:
  "py_request_with_auth_fallback demo_client demo_transport [] ''GET'' ''http://mail.test/api/generate''
       (generate_kwargs None)
     = (Inr (demo_response 405),
        [(build_request demo_client ''GET'' ''http://mail.test/api/generate'' False (generate_kwargs None),
          Inr (demo_response 401)),
         (build_request demo_client ''GET'' ''http://mail.test/api/generate'' True (generate_kwargs None),
          Inr (demo_response 405))])
   \<and> py_request_with_auth_fallback demo_client failing_transport [] ''GET'' ''http://mail.test/api/generate''
       (generate_kwargs None)
     = (Inl RequestException,
        [(build_request demo_client ''GET'' ''http://mail.test/api/generate'' False (generate_kwargs None),
          Inl RequestException)])"
proof -
  let ?u = "''http://mail.test/api/generate''"
  let ?kw = "generate_kwargs None"
  have tok: "jwt_token demo_client \<noteq> []" by (simp add: demo_client_def)
  have o1: "demo_transport [] (build_request demo_client ''GET'' ?u False ?kw) = Inr (demo_response 401)"
    by (simp add: demo_transport_def build_request_def generate_kwargs_def Let_def)
  have o2: "demo_transport h (build_request demo_client ''GET'' ?u True ?kw) = Inr (demo_response 405)" for h
    by (simp add: demo_transport_def build_request_def generate_kwargs_def Let_def
        demo_client_def setdefault_def)
  have st: "status_code (demo_response 401) = 401" by (simp add: demo_response_def)
  have f: "failing_transport h r = Inl RequestException" for h r
    by (simp add: failing_transport_def)
  note a = auth_fallback_at_most_once [of demo_client "''GET''" ?u ?kw demo_transport "[]",
      unfolded Let_def, THEN conjunct2, THEN conjunct2, THEN conjunct2, THEN conjunct1]
  note b = auth_fallback_at_most_once [of demo_client "''GET''" ?u ?kw failing_transport "[]",
      unfolded Let_def, THEN conjunct2, THEN conjunct2, THEN conjunct2, THEN conjunct2,
      THEN conjunct1]
  have 1: "py_request_with_auth_fallback demo_client demo_transport [] ''GET'' ?u ?kw
     = (Inr (demo_response 405),
        [(build_request demo_client ''GET'' ?u False ?kw, Inr (demo_response 401)),
         (build_request demo_client ''GET'' ?u True ?kw, Inr (demo_response 405))])"
    using a tok st unfolding o1 o2 by simp
  have 2: "py_request_with_auth_fallback demo_client failing_transport [] ''GET'' ?u ?kw
     = (Inl RequestException, [(build_request demo_client ''GET'' ?u False ?kw, Inl RequestException)])"
    using b unfolding f by simp
  show ?thesis using 1 2 by (rule conjI)
qed

section \<open>register\_account\<close>

lemma generate_loop_shape:
  assumes "generate_loop c tr h url kw [''GET'', ''POST''] None = (out, h')"
  shows "\<exists>new g p. h' = h @ new \<and> new \<noteq> []
           \<and> (\<forall>x \<in> set new. req_url (fst x) = url)
           \<and> map (req_method \<circ> fst) new = replicate g ''GET'' @ replicate p ''POST''
           \<and> 1 \<le> g \<and> g \<le> 2 \<and> p \<le> 2
           \<and> (0 < p \<longleftrightarrow> (\<exists>r. snd (new ! (g - 1)) = Inr r \<and> status_code r \<in> {404, 405}))
           \<and> (case out of Inl e \<Rightarrow> snd (last new) = Inl e
               | Inr None \<Rightarrow> False
               | Inr (Some r) \<Rightarrow> snd (last new) = Inr r)"
proof -
  obtain out1 h1 where f1: "py_request_with_auth_fallback c tr h ''GET'' url kw = (out1, h1)"
    by force
  from fallback_history [OF f1] obtain new1 where n1:
    "h1 = h @ new1" "length new1 = 1 \<or> length new1 = 2"
    "\<forall>x \<in> set new1. req_method (fst x) = ''GET'' \<and> req_url (fst x) = url"
    "snd (last new1) = out1"
    by blast
  have ne1: "new1 \<noteq> []" using n1(2) by auto
  have m1: "map (req_method \<circ> fst) new1 = replicate (length new1) ''GET''"
    using n1(3) by (simp add: map_replicate_const [symmetric] cong: map_cong)
  have l1: "new1 ! (length new1 - 1) = last new1"
    using ne1 by (simp add: last_conv_nth)
  show ?thesis
  proof (cases "\<exists>r. out1 = Inr r \<and> status_code r \<in> {404, 405}")
    case False
    then have res: "out = (case out1 of Inl e \<Rightarrow> Inl e | Inr r \<Rightarrow> Inr (Some r))" "h' = h1"
      using assms f1 by (auto split: sum.splits if_splits)
    have "h' = h @ new1 \<and> new1 \<noteq> [] \<and> (\<forall>x \<in> set new1. req_url (fst x) = url)
          \<and> map (req_method \<circ> fst) new1 = replicate (length new1) ''GET'' @ replicate 0 ''POST''
          \<and> 1 \<le> length new1 \<and> length new1 \<le> 2 \<and> (0::nat) \<le> 2
          \<and> ((0::nat) < 0 \<longleftrightarrow> (\<exists>r. snd (new1 ! (length new1 - 1)) = Inr r \<and> status_code r \<in> {404, 405}))
          \<and> (case out of Inl e \<Rightarrow> snd (last new1) = Inl e
              | Inr None \<Rightarrow> False
              | Inr (Some r) \<Rightarrow> snd (last new1) = Inr r)"
      using res n1 ne1 m1 l1 False by (auto split: sum.splits)
    then show ?thesis by blast
  next
    case True
    then obtain r1 where r1: "out1 = Inr r1" "status_code r1 \<in> {404, 405}" by blast
    obtain out2 h2 where f2: "py_request_with_auth_fallback c tr h1 ''POST'' url kw = (out2, h2)"
      by force
    from fallback_history [OF f2] obtain new2 where n2:
      "h2 = h1 @ new2" "length new2 = 1 \<or> length new2 = 2"
      "\<forall>x \<in> set new2. req_method (fst x) = ''POST'' \<and> req_url (fst x) = url"
      "snd (last new2) = out2"
      by blast
    have ne2: "new2 \<noteq> []" using n2(2) by auto
    have m2: "map (req_method \<circ> fst) new2 = replicate (length new2) ''POST''"
      using n2(3) by (simp add: map_replicate_const [symmetric] cong: map_cong)
    have res: "out = (case out2 of Inl e \<Rightarrow> Inl e | Inr r \<Rightarrow> Inr (Some r))" "h' = h2"
      using assms f1 f2 r1 by (auto split: sum.splits if_splits)
    have nth: "(new1 @ new2) ! (length new1 - 1) = last new1"
      using ne1 l1 by (simp add: nth_append)
    have "h' = h @ (new1 @ new2) \<and> new1 @ new2 \<noteq> []
          \<and> (\<forall>x \<in> set (new1 @ new2). req_url (fst x) = url)
          \<and> map (req_method \<circ> fst) (new1 @ new2)
              = replicate (length new1) ''GET'' @ replicate (length new2) ''POST''
          \<and> 1 \<le> length new1 \<and> length new1 \<le> 2 \<and> length new2 \<le> 2
          \<and> (0 < length new2
               \<longleftrightarrow> (\<exists>r. snd ((new1 @ new2) ! (length new1 - 1)) = Inr r \<and> status_code r \<in> {404, 405}))
          \<and> (case out of Inl e \<Rightarrow> snd (last (new1 @ new2)) = Inl e
              | Inr None \<Rightarrow> False
              | Inr (Some r) \<Rightarrow> snd (last (new1 @ new2)) = Inr r)"
      using res n1 n2 ne1 ne2 m1 m2 r1 unfolding nth by (auto split: sum.splits)
    then show ?thesis by blast
  qed
qed

lemma address_cases:
  "(case (if content r \<noteq> [] then json_body r else Inr (JObj [])) of
      Inl e \<Rightarrow> (False, c, h1)
    | Inr (JObj d) \<Rightarrow>
        (if truthy (py_or (dict_get d ''email'') (dict_get d ''mailbox''))
         then (True, c\<lparr>email := py_or (dict_get d ''email'') (dict_get d ''mailbox'')\<rparr>, h1)
         else (False, c, h1))
    | Inr other \<Rightarrow> (False, c, h1))
   = (if has_address r then (True, c\<lparr>email := address_of r\<rparr>, h1) else (False, c, h1))"
proof (cases "content r = []")
  case True
  then show ?thesis
    by (cases "json_body r")
       (simp_all add: has_address_def py_or_def dict_get_def split: json.splits)
next
  case False
  show ?thesis
  proof (cases "json_body r")
    case (Inl e)
    then show ?thesis using False by (simp add: has_address_def)
  next
    case (Inr j)
    then show ?thesis using False
      by (cases j) (simp_all add: has_address_def address_of_def py_or_def Let_def)
  qed
qed

lemma register_account_result:
  "register_account c tr h domain =
     (case generate_loop c tr h (base_url c @ ''/api/generate'') (generate_kwargs domain)
             [''GET'', ''POST''] None of
        (Inr (Some r), h1) \<Rightarrow>
          if status_code r \<in> {200, 201} \<and> has_address r then (True, c\<lparr>email := address_of r\<rparr>, h1)
          else (False, c, h1)
      | (other, h1) \<Rightarrow> (False, c, h1))"
proof -
  obtain out h1 where g: "generate_loop c tr h (base_url c @ ''/api/generate'')
      (generate_kwargs domain) [''GET'', ''POST''] None = (out, h1)"
    by force
  show ?thesis
  proof (cases out)
    case (Inl e)
    then show ?thesis using g by (simp add: register_account_def)
  next
    case (Inr ro)
    show ?thesis
    proof (cases ro)
      case None
      then show ?thesis using g Inr by (simp add: register_account_def)
    next
      case (Some r)
      show ?thesis
        unfolding register_account_def Let_def g Inr Some
        by (simp only: prod.case sum.case option.case address_cases) simp
    qed
  qed
qed

lemma demo_exchanges:
  "demo_transport h (build_request demo_client m url False (generate_kwargs None))
     = Inr (demo_response 401)"
  "demo_transport h (build_request demo_client ''GET'' url True (generate_kwargs None))
     = Inr (demo_response 405)"
  "demo_transport h (build_request demo_client ''POST'' url True (generate_kwargs None))
     = Inr (demo_response 201)"
  by (simp_all add: demo_transport_def build_request_def generate_kwargs_def Let_def
      demo_client_def setdefault_def)

lemma demo_fallback:
  "py_request_with_auth_fallback demo_client demo_transport h ''GET'' url (generate_kwargs None)
     = (Inr (demo_response 405),
        h @ [(build_request demo_client ''GET'' url False (generate_kwargs None), Inr (demo_response 401)),
             (build_request demo_client ''GET'' url True (generate_kwargs None), Inr (demo_response 405))])"
  "py_request_with_auth_fallback demo_client demo_transport h ''POST'' url (generate_kwargs None)
     = (Inr (demo_response 201),
        h @ [(build_request demo_client ''POST'' url False (generate_kwargs None), Inr (demo_response 401)),
             (build_request demo_client ''POST'' url True (generate_kwargs None), Inr (demo_response 201))])"
proof -
  have tok: "jwt_token demo_client \<noteq> []" by (simp add: demo_client_def)
  have st: "status_code (demo_response 401) = 401" by (simp add: demo_response_def)
  show "py_request_with_auth_fallback demo_client demo_transport h ''GET'' url (generate_kwargs None)
     = (Inr (demo_response 405),
        h @ [(build_request demo_client ''GET'' url False (generate_kwargs None), Inr (demo_response 401)),
             (build_request demo_client ''GET'' url True (generate_kwargs None), Inr (demo_response 405))])"
    unfolding fallback_cases Let_def demo_exchanges using tok st by simp
  show "py_request_with_auth_fallback demo_client demo_transport h ''POST'' url (generate_kwargs None)
     = (Inr (demo_response 201),
        h @ [(build_request demo_client ''POST'' url False (generate_kwargs None), Inr (demo_response 401)),
             (build_request demo_client ''POST'' url True (generate_kwargs None), Inr (demo_response 201))])"
    unfolding fallback_cases Let_def demo_exchanges using tok st by simp
qed

lemma demo_register:
  "register_account demo_client demo_transport [] None
     = (True, demo_client\<lparr>email := JStr ''a@mail.test''\<rparr>,
        [(build_request demo_client ''GET'' ''http://mail.test/api/generate'' False (generate_kwargs None),
          Inr (demo_response 401)),
         (build_request demo_client ''GET'' ''http://mail.test/api/generate'' True (generate_kwargs None),
          Inr (demo_response 405)),
         (build_request demo_client ''POST'' ''http://mail.test/api/generate'' False (generate_kwargs None),
          Inr (demo_response 401)),
         (build_request demo_client ''POST'' ''http://mail.test/api/generate'' True (generate_kwargs None),
          Inr (demo_response 201))])"
proof -
  have u: "base_url demo_client @ ''/api/generate'' = ''http://mail.test/api/generate''"
    by (simp add: demo_client_def)
  have s5: "status_code (demo_response 405) = 405" "status_code (demo_response 201) = 201"
    by (simp_all add: demo_response_def)
  have ad: "has_address (demo_response 201)" "address_of (demo_response 201) = JStr ''a@mail.test''"
    by (simp_all add: has_address_def address_of_def demo_response_def dict_get_def)
  show ?thesis
    unfolding register_account_result u
    by (simp add: demo_fallback s5 ad)
qed

lemma failing_register:
  "register_account demo_client failing_transport [] None
     = (False, demo_client,
        [(build_request demo_client ''GET'' ''http://mail.test/api/generate'' False (generate_kwargs None),
          Inl RequestException)])"
proof -
  have u: "base_url demo_client @ ''/api/generate'' = ''http://mail.test/api/generate''"
    by (simp add: demo_client_def)
  show ?thesis
    unfolding register_account_result u
    by (simp add: fallback_cases Let_def failing_transport_def)
qed

text \<open>
  Claim C5. \<open>register_account\<close> always returns a boolean (an exception of the transport, of
  \<open>res.json()\<close> or of \<open>data.get\<close> is a value that the model turns into \<open>False\<close>). All its
  requests go to the generate endpoint, \<open>GET\<close> first and then \<open>POST\<close>, and \<open>POST\<close> is tried
  exactly when the last \<open>GET\<close> response has status 404 or 405. The result is \<open>True\<close> exactly
  when the final outcome is a response with status 200 or 201 whose body has a non-empty
  \<open>email\<close> or \<open>mailbox\<close> field, and that address is stored; it is \<open>False\<close> on a final 401
  or 403, on a body without address, and when the transport raises.
\<close>

theorem register_account_outcome:
  assumes "register_account c tr h domain = (b, c', h')"
  shows "\<exists>new. h' = h @ new \<and> new \<noteq> []
           \<and> (\<forall>x \<in> set new. req_url (fst x) = base_url c @ ''/api/generate'')
           \<and> (\<exists>g p. map (req_method \<circ> fst) new = replicate g ''GET'' @ replicate p ''POST''
                  \<and> 1 \<le> g \<and> g \<le> 2 \<and> p \<le> 2
                  \<and> (0 < p \<longleftrightarrow> (\<exists>r. snd (new ! (g - 1)) = Inr r \<and> status_code r \<in> {404, 405})))
           \<and> (b \<longleftrightarrow> (\<exists>r. snd (last new) = Inr r \<and> status_code r \<in> {200, 201} \<and> has_address r))
           \<and> (b \<longrightarrow> (\<exists>r. snd (last new) = Inr r \<and> c' = c\<lparr>email := address_of r\<rparr>))
           \<and> ((\<exists>e. snd (last new) = Inl e) \<longrightarrow> \<not> b)
           \<and> ((\<exists>r. snd (last new) = Inr r \<and> status_code r \<in> {401, 403}) \<longrightarrow> \<not> b)
           \<and> ((\<exists>r. snd (last new) = Inr r \<and> \<not> has_address r) \<longrightarrow> \<not> b)"
proof -
  let ?url = "base_url c @ ''/api/generate''"
  obtain out h1 where g: "generate_loop c tr h ?url (generate_kwargs domain) [''GET'', ''POST''] None
      = (out, h1)"
    by force
  from generate_loop_shape [OF g] obtain new gn pn where sh:
    "h1 = h @ new" "new \<noteq> []" "\<forall>x \<in> set new. req_url (fst x) = ?url"
    "map (req_method \<circ> fst) new = replicate gn ''GET'' @ replicate pn ''POST''"
    "1 \<le> gn" "gn \<le> 2" "pn \<le> 2"
    "0 < pn \<longleftrightarrow> (\<exists>r. snd (new ! (gn - 1)) = Inr r \<and> status_code r \<in> {404, 405})"
    "case out of Inl e \<Rightarrow> snd (last new) = Inl e | Inr None \<Rightarrow> False
       | Inr (Some r) \<Rightarrow> snd (last new) = Inr r"
    by blast
  have res: "(b, c', h') = (case out of
        Inr (Some r) \<Rightarrow> if status_code r \<in> {200, 201} \<and> has_address r
                         then (True, c\<lparr>email := address_of r\<rparr>, h1) else (False, c, h1)
      | other \<Rightarrow> (False, c, h1))"
    using assms unfolding register_account_result g
    by (simp split: sum.splits option.splits)
  have h': "h' = h1" using res by (auto split: sum.splits option.splits if_splits)
  have b: "b \<longleftrightarrow> (\<exists>r. snd (last new) = Inr r \<and> status_code r \<in> {200, 201} \<and> has_address r)"
    using res sh(9) by (auto split: sum.splits option.splits if_splits)
  have c': "b \<longrightarrow> (\<exists>r. snd (last new) = Inr r \<and> c' = c\<lparr>email := address_of r\<rparr>)"
    using res sh(9) by (auto split: sum.splits option.splits if_splits)
  have shape: "\<exists>g p. map (req_method \<circ> fst) new = replicate g ''GET'' @ replicate p ''POST''
                  \<and> 1 \<le> g \<and> g \<le> 2 \<and> p \<le> 2
                  \<and> (0 < p \<longleftrightarrow> (\<exists>r. snd (new ! (g - 1)) = Inr r \<and> status_code r \<in> {404, 405}))"
    using sh(4-8) by blast
  have neg: "(\<exists>e. snd (last new) = Inl e) \<longrightarrow> \<not> b"
    "(\<exists>r. snd (last new) = Inr r \<and> status_code r \<in> {401, 403}) \<longrightarrow> \<not> b"
    "(\<exists>r. snd (last new) = Inr r \<and> \<not> has_address r) \<longrightarrow> \<not> b"
    using b by auto
  show ?thesis
    using sh(1-3) h' shape b c' neg by blast
qed

theorem register_account_outcome_witness:
  "(\<exists>new. snd (snd (register_account demo_client demo_transport [] None)) = [] @ new
      \<and> map (req_method \<circ> fst) new = [''GET'', ''GET'', ''POST'', ''POST'']
      \<and> snd (last new) = Inr (demo_response 201))
   \<and> fst (register_account demo_client demo_transport [] None)
   \<and> email (fst (snd (register_account demo_client demo_transport [] None))) = JStr ''a@mail.test''"
proof -
  from register_account_outcome [OF demo_register]
  obtain new where n: "snd (snd (register_account demo_client demo_transport [] None)) = [] @ new"
    and r: "\<exists>r. snd (last new) = Inr r \<and> status_code r \<in> {200, 201} \<and> has_address r"
    by (auto simp: demo_register)
  have "map (req_method \<circ> fst) new = [''GET'', ''GET'', ''POST'', ''POST'']"
       "snd (last new) = Inr (demo_response 201)"
    using n by (auto simp: demo_register build_request_fields)
  then show ?thesis using n by (simp add: demo_register)
qed

text \<open>
  Claim C10. When \<open>register_account\<close> returns \<open>False\<close> the client is exactly as before the
  call. The \<open>email\<close> field is assigned only when the result is \<open>True\<close>, and no other field
  is ever assigned.
\<close>

theorem register_account_email_atomic:
  "(\<not> fst (register_account c tr h domain) \<longrightarrow> fst (snd (register_account c tr h domain)) = c)
   \<and> (fst (snd (register_account c tr h domain)) \<noteq> c \<longrightarrow> fst (register_account c tr h domain))
   \<and> (\<exists>a. fst (snd (register_account c tr h domain)) = c\<lparr>email := a\<rparr>)"
proof -
  obtain out h1 where g: "generate_loop c tr h (base_url c @ ''/api/generate'')
      (generate_kwargs domain) [''GET'', ''POST''] None = (out, h1)"
    by force
  have "c = c\<lparr>email := email c\<rparr>" by simp
  then have same: "\<exists>a. c = c\<lparr>email := a\<rparr>" by blast
  show ?thesis
    unfolding register_account_result g using same
    by (auto split: sum.splits option.splits)
qed

theorem register_account_email_atomic_witness:
  "\<not> fst (register_account demo_client failing_transport [] None)
   \<and> fst (snd (register_account demo_client failing_transport [] None)) = demo_client
   \<and> fst (register_account demo_client demo_transport [] None)
   \<and> fst (snd (register_account demo_client demo_transport [] None)) \<noteq> demo_client"
proof -
  have d: "demo_client\<lparr>email := JStr ''a@mail.test''\<rparr> \<noteq> demo_client"
  proof
    assume "demo_client\<lparr>email := JStr ''a@mail.test''\<rparr> = demo_client"
    then have "email (demo_client\<lparr>email := JStr ''a@mail.test''\<rparr>) = email demo_client" by simp
    then show False by (simp add: demo_client_def)
  qed
  show ?thesis
    using register_account_email_atomic [of demo_client failing_transport "[]" None]
      register_account_email_atomic [of demo_client demo_transport "[]" None] d
    by (simp add: failing_register demo_register)
qed

section \<open>The order of the emails\<close>

lemma sort_reverse_sorted: "sorted_wrt (\<lambda>a b. key b \<le> key a) (sort_reverse key xs)"
proof -
  have "sorted (map key (sort_key key (rev xs)))" by simp
  then have "sorted_wrt (\<lambda>a b. key a \<le> key b) (sort_key key (rev xs))"
    by (simp add: sorted_map)
  then show ?thesis
    by (simp add: sort_reverse_def sorted_wrt_rev)
qed

lemma sort_reverse_stable:
  "filter (\<lambda>y. key y = k) (sort_reverse key xs) = filter (\<lambda>y. key y = k) xs"
proof -
  have "filter (\<lambda>y. key y = k) (sort_reverse key xs)
        = rev (filter (\<lambda>y. key y = k) (sort_key key (rev xs)))"
    by (simp add: sort_reverse_def rev_filter)
  also have "\<dots> = rev (filter (\<lambda>y. key y = k) (rev xs))"
    by (simp only: sort_key_stable)
  also have "\<dots> = filter (\<lambda>y. key y = k) xs"
    by (simp add: rev_filter)
  finally show ?thesis .
qed

lemma sort_reverse_mset: "mset (sort_reverse key xs) = mset xs"
  by (simp add: sort_reverse_def)

lemma descending_split:
  fixes key :: "'a \<Rightarrow> nat"
  assumes "sorted_wrt (\<lambda>a b. key b \<le> key a) xs"
  shows "xs = filter (\<lambda>x. 0 < key x) xs @ filter (\<lambda>x. \<not> 0 < key x) xs"
  using assms
proof (induction xs)
  case Nil
  then show ?case by simp
next
  case (Cons x xs)
  then have ih: "xs = filter (\<lambda>x. 0 < key x) xs @ filter (\<lambda>x. \<not> 0 < key x) xs"
    and le: "\<forall>y \<in> set xs. key y \<le> key x"
    by simp_all
  show ?case
  proof (cases "0 < key x")
    case True
    then show ?thesis using ih by simp
  next
    case False
    then have "\<forall>y \<in> set xs. \<not> 0 < key y" using le by auto
    then have "filter (\<lambda>x. 0 < key x) xs = []" "filter (\<lambda>x. \<not> 0 < key x) xs = xs"
      by (simp_all add: filter_empty_conv)
    then show ?thesis using False by simp
  qed
qed

lemma untimed_key: "\<not> has_time x \<Longrightarrow> time_key x = datetime_min"
  by (simp add: has_time_def time_key_def)

lemma untimed_filter:
  "filter (\<lambda>x. \<not> has_time x) xs
   = filter (\<lambda>x. \<not> has_time x) (filter (\<lambda>y. time_key y = datetime_min) xs)"
  by (induction xs) (auto simp: untimed_key)

lemma timed_key_positive:
  assumes "\<forall>x \<in> set xs. snd x \<noteq> Some datetime_min"
  shows "filter (\<lambda>x. 0 < time_key x) xs = filter has_time xs"
    and "filter (\<lambda>x. \<not> 0 < time_key x) xs = filter (\<lambda>x. \<not> has_time x) xs"
proof -
  have eq: "0 < time_key x \<longleftrightarrow> has_time x" if "x \<in> set xs" for x
    using assms that by (cases "snd x") (auto simp: time_key_def has_time_def datetime_min_def)
  show "filter (\<lambda>x. 0 < time_key x) xs = filter has_time xs"
    by (rule filter_cong [OF refl]) (rule eq)
  show "filter (\<lambda>x. \<not> 0 < time_key x) xs = filter (\<lambda>x. \<not> has_time x) xs"
    by (rule filter_cong [OF refl]) (simp only: eq)
qed

lemma order_sorted:
  "sorted_wrt (\<lambda>a b. time_key b \<le> time_key a) (filter has_time (order_emails_with_time ewt))"
proof (cases "list_ex has_time ewt")
  case True
  then show ?thesis
    by (simp add: order_emails_with_time_def sort_reverse_sorted sorted_wrt_filter)
next
  case False
  then have "filter has_time ewt = []"
    by (simp add: list_ex_iff filter_empty_conv)
  with False show ?thesis by (simp add: order_emails_with_time_def)
qed

lemma order_stable:
  "filter (\<lambda>y. time_key y = k) (order_emails_with_time ewt) = filter (\<lambda>y. time_key y = k) ewt"
  by (simp add: order_emails_with_time_def sort_reverse_stable)

lemma order_untimed:
  "filter (\<lambda>x. \<not> has_time x) (order_emails_with_time ewt) = filter (\<lambda>x. \<not> has_time x) ewt"
proof -
  have "filter (\<lambda>x. \<not> has_time x) (order_emails_with_time ewt)
        = filter (\<lambda>x. \<not> has_time x)
            (filter (\<lambda>y. time_key y = datetime_min) (order_emails_with_time ewt))"
    by (rule untimed_filter)
  also have "\<dots> = filter (\<lambda>x. \<not> has_time x) (filter (\<lambda>y. time_key y = datetime_min) ewt)"
    by (simp only: order_stable)
  also have "\<dots> = filter (\<lambda>x. \<not> has_time x) ewt"
    by (rule untimed_filter [symmetric])
  finally show ?thesis .
qed

lemma order_mset: "mset (order_emails_with_time ewt) = mset ewt"
  by (simp add: order_emails_with_time_def sort_reverse_mset)

lemma order_timed_first:
  assumes "\<forall>x \<in> set ewt. snd x \<noteq> Some datetime_min"
  shows "timed_first (order_emails_with_time ewt)"
proof (cases "list_ex has_time ewt")
  case True
  let ?P = "sort_reverse time_key ewt"
  have "set ?P = set ewt" using sort_reverse_mset [of time_key ewt] by (rule mset_eq_setD)
  then have ok: "\<forall>x \<in> set ?P. snd x \<noteq> Some datetime_min" using assms by simp
  have "?P = filter (\<lambda>x. 0 < time_key x) ?P @ filter (\<lambda>x. \<not> 0 < time_key x) ?P"
    by (rule descending_split) (rule sort_reverse_sorted)
  then have "?P = filter has_time ?P @ filter (\<lambda>x. \<not> has_time x) ?P"
    unfolding timed_key_positive [OF ok] .
  then show ?thesis using True by (simp add: timed_first_def order_emails_with_time_def)
next
  case False
  then have "filter has_time ewt = []" "filter (\<lambda>x. \<not> has_time x) ewt = ewt"
    by (simp_all add: list_ex_iff filter_empty_conv)
  with False show ?thesis by (simp add: timed_first_def order_emails_with_time_def)
qed

text \<open>
  Claim C4, as the code has it. The order is descending in the sort key, and an item
  without a time has the key \<open>datetime.min\<close>. So, when no item has \<open>datetime.min\<close> itself as
  its time: every item with a time stands before every item without one, the items with a
  time are in descending order of their times, the items without a time keep their
  relative order, and the result is a permutation of the list.
\<close>

theorem order_emails_newest_first:
  assumes "\<forall>x \<in> set ewt. snd x \<noteq> Some datetime_min"
  shows "timed_first (order_emails_with_time ewt)
         \<and> sorted_wrt (\<lambda>a b. the (snd b) \<le> the (snd a)) (filter has_time (order_emails_with_time ewt))
         \<and> filter (\<lambda>x. \<not> has_time x) (order_emails_with_time ewt) = filter (\<lambda>x. \<not> has_time x) ewt
         \<and> mset (order_emails_with_time ewt) = mset ewt"
proof -
  have "sorted_wrt (\<lambda>a b. time_key b \<le> time_key a) (filter has_time (order_emails_with_time ewt))"
    by (rule order_sorted)
  moreover have "time_key x = the (snd x)"
    if "x \<in> set (filter has_time (order_emails_with_time ewt))" for x
    using that by (auto simp: has_time_def time_key_def)
  ultimately have "sorted_wrt (\<lambda>a b. the (snd b) \<le> the (snd a))
      (filter has_time (order_emails_with_time ewt))"
    by (auto elim!: sorted_wrt_mono_rel [rotated])
  then show ?thesis
    using order_timed_first [OF assms] order_untimed [of ewt] order_mset [of ewt] by simp
qed

theorem order_emails_newest_first_witness:
  "order_emails_with_time [(''a'', None), (''b'', Some 5), (''c'', None), (''d'', Some 9), (''e'', Some 5)]
     = [(''d'', Some 9), (''b'', Some 5), (''e'', Some 5), (''a'', None), (''c'', None)]
   \<and> timed_first (order_emails_with_time
        [(''a'', None), (''b'', Some 5), (''c'', None), (''d'', Some 9), (''e'', Some 5)])"
proof -
  let ?l = "[(''a'', None), (''b'', Some 5), (''c'', None), (''d'', Some 9), (''e'', Some (5::nat))]"
  have h: "\<forall>x \<in> set ?l. snd x \<noteq> Some datetime_min" by (simp add: datetime_min_def)
  have "order_emails_with_time ?l
     = [(''d'', Some 9), (''b'', Some 5), (''e'', Some 5), (''a'', None), (''c'', None)]"
    by (simp add: order_emails_with_time_def sort_reverse_def has_time_def time_key_def
        datetime_min_def)
  then show ?thesis using order_emails_newest_first [OF h] by simp
qed

text \<open>
  Claim C4, as the specification states it, fails on an item whose time is \<open>datetime.min\<close>:
  its key equals the key of the items without a time, and it stays behind the ones that
  preceded it.
\<close>

theorem order_emails_min_counterexample:
  "\<not> timed_first (order_emails_with_time
        [(JObj [(''id'', JStr ''1'')], None),
         (JObj [(''id'', JStr ''2''), (''created_at'', JStr ''0001-01-01T00:00:00Z'')], Some datetime_min)])"
  by (simp add: order_emails_with_time_def sort_reverse_def has_time_def time_key_def
      timed_first_def)

section \<open>The timestamp parser\<close>

lemma first_time_created_at: "v \<noteq> JNull \<Longrightarrow> first_time [(''created_at'', v)] time_keys = v"
  by (simp add: time_keys_def dict_get_def)

lemma parse_number:
  "py_parse_email_time lib (JObj [(''created_at'', JInt n)])
     = from_number lib (of_int n)"
  by (simp add: py_parse_email_time_def first_time_created_at)

text \<open>
  The magnitude rule: a number above \<open>10^12\<close> is divided by 1000, so the milliseconds
  1700000000000 and the seconds 1700000000 reach \<open>datetime.fromtimestamp\<close> as the same
  value, as numbers and as strings of digits.
\<close>

lemma parse_millis_as_seconds:
  "py_parse_email_time lib (JObj [(''created_at'', JInt 1700000000000)])
     = py_parse_email_time lib (JObj [(''created_at'', JInt 1700000000)])"
  "py_parse_email_time lib (JObj [(''created_at'', JStr ''1700000000000'')])
     = py_parse_email_time lib (JObj [(''created_at'', JInt 1700000000)])"
  "py_parse_email_time lib (JObj [(''created_at'', JStr ''1700000000'')])
     = py_parse_email_time lib (JObj [(''created_at'', JInt 1700000000)])"
  by (simp_all add: py_parse_email_time_def first_time_created_at from_number_def
      scale_timestamp_def strip_def is_space_def cp_def isdigit_def is_ascii_digit_def
      float_of_digits_def)

lemma parse_example:
  "py_parse_email_time numeric_lib (JObj [(''created_at'', JInt 1700000000000)])
     = Inr (Some 63835596800000000)"
  "py_parse_email_time numeric_lib (JObj [(''sentAt'', JFloat (3 / 2))])
     = Inr (Some 62135596801500000)"
  by (simp_all add: py_parse_email_time_def time_keys_def dict_get_def from_number_def
      scale_timestamp_def numeric_lib_def round_half_even_def)

text \<open>Absent and empty values, and values that are neither numbers nor strings, give \<open>None\<close>.\<close>

lemma parse_absent:
  "py_parse_email_time lib (JObj []) = Inr None"
  "py_parse_email_time lib (JObj [(''created_at'', JNull)]) = Inr None"
  "py_parse_email_time lib (JObj [(''created_at'', JStr '' '')]) = Inr None"
  "py_parse_email_time lib (JObj [(''created_at'', JList xs)]) = Inr None"
  by (simp_all add: py_parse_email_time_def time_keys_def dict_get_def strip_def is_space_def
      cp_def)

text \<open>A string that \<open>fromisoformat\<close> rejects gives \<open>None\<close>: this branch has the \<open>try\<close>.\<close>

lemma parse_iso_rejected:
  assumes "strip s \<noteq> []" and "\<not> isdigit (strip s)"
    and "fromisoformat lib (replace_Z (truncate_fraction (strip s))) = Inl e"
  shows "py_parse_email_time lib (JObj [(''created_at'', JStr s)]) = Inr None"
  using assms by (simp add: py_parse_email_time_def time_keys_def dict_get_def from_iso_def)

text \<open>
  Claim C6 asks for \<open>None\<close>, and for no exception, on every value that cannot be parsed.
  The numeric branches have no \<open>try\<close>: when \<open>datetime.fromtimestamp\<close> raises on the scaled
  value, for a number or for a string of digits, \<open>_parse_email_time\<close> raises the same
  exception.
\<close>

theorem parse_email_time_raises:
  assumes "local_from_timestamp lib (scale_timestamp (of_int n)) = Inl e"
  shows "py_parse_email_time lib (JObj [(''created_at'', JInt n)]) = Inl e
         \<and> (\<forall>s. strip s \<noteq> [] \<and> float_of_digits (strip s) = Inr (of_int n)
               \<longrightarrow> py_parse_email_time lib (JObj [(''created_at'', JStr s)]) = Inl e)"
proof -
  have num: "from_number lib (of_int n) = Inl e"
    using assms by (simp add: from_number_def)
  have "py_parse_email_time lib (JObj [(''created_at'', JStr s)]) = Inl e"
    if "strip s \<noteq> []" "float_of_digits (strip s) = Inr (of_int n)" for s
  proof -
    have "list_all is_ascii_digit (strip s)"
      using that(2) by (simp add: float_of_digits_def split: if_splits)
    then have "isdigit (strip s)"
      using that(1) by (simp add: isdigit_def list_all_iff)
    then show ?thesis
      using that num
      by (simp add: py_parse_email_time_def time_keys_def dict_get_def)
  qed
  then show ?thesis using num by (simp add: parse_number)
qed

theorem parse_email_time_raises_witness:
  "py_parse_email_time numeric_lib (JObj [(''created_at'', JInt 1700000000000000000)]) = Inl ValueError
   \<and> py_parse_email_time numeric_lib (JObj [(''created_at'', JStr ''1700000000000000000'')])
       = Inl ValueError"
proof -
  have h: "local_from_timestamp numeric_lib (scale_timestamp (of_int 1700000000000000000)) = Inl ValueError"
    by (simp add: numeric_lib_def scale_timestamp_def)
  have s: "strip ''1700000000000000000'' = ''1700000000000000000''"
    by (simp add: strip_def is_space_def cp_def)
  have f: "float_of_digits ''1700000000000000000'' = Inr (of_int 1700000000000000000)"
    by (simp add: float_of_digits_def is_ascii_digit_def cp_def)
  from parse_email_time_raises [OF h] s f show ?thesis by simp
qed

section \<open>The conversation key\<close>












lemma user_hi_fingerprint: "message_fingerprint user_hi = Inr ''user:hi''"
  by code_simp



lemma conversation_key_empty:
  "get_conversation_key [] ''1.2.3.4'' = Inr ''1.2.3.4:empty''"
  "get_conversation_key [] [] = Inr ''empty''"
  by (simp_all add: get_conversation_key_def)


text \<open>
  No digest of a fixed length tells all strings apart: the keys of one conversation are
  MD5 digests, of which there are finitely many, and the client identifiers are
  infinitely many strings. So the keys of two identifiers can differ only up to the
  collisions of MD5, as the theorem above states it.
\<close>

lemma fixed_length_keys_not_injective:
  "\<not> (\<forall>cid cid'. cid \<noteq> cid'
        \<longrightarrow> get_conversation_key [user_hi] cid \<noteq> get_conversation_key [user_hi] cid')"
proof
  assume a: "\<forall>cid cid'. cid \<noteq> cid'
        \<longrightarrow> get_conversation_key [user_hi] cid \<noteq> get_conversation_key [user_hi] cid'"
  let ?f = "get_conversation_key [user_hi]"
  let ?h = "\<lambda>st :: md5_state. (Inr (hexdigest st) :: py_error + string)"
  have inj: "inj ?f" using a by (auto simp: inj_def)
  have "?f cid \<in> range ?h" for cid
    by (simp add: get_conversation_key_def conversation_prefix_def user_hi_fingerprint)
  then have "range ?f \<subseteq> range ?h" by blast
  moreover have "finite (range ?h)" by simp
  ultimately have "finite (range ?f)" by (rule finite_subset)
  then have "finite (UNIV :: string set)" using inj by (rule finite_imageD)
  then show False using infinite_UNIV_listI by blast
qed

section \<open>The parts of the last message\<close>

lemma startswith_append: "startswith (p @ s) p"
  by (simp add: startswith_def)

lemma match_data_uri_shape:
  assumes "m \<noteq> []" and "CHR '';'' \<notin> set m" and "d \<noteq> []" and "CHR ''\<newline>'' \<notin> set d"
  shows "match_data_uri (''data:'' @ m @ '';base64,'' @ d) = Some (m, d)"
proof -
  have "\<forall>c \<in> set m. c \<noteq> CHR '';''" using assms(2) by auto
  then have tw: "takeWhile (\<lambda>c. c \<noteq> CHR '';'') (m @ '';base64,'' @ d) = m"
    by (simp add: takeWhile_append2)
  have "\<forall>c \<in> set d. c \<noteq> CHR ''\<newline>''" using assms(4) by auto
  then have td: "takeWhile (\<lambda>c. c \<noteq> CHR ''\<newline>'') d = d"
    by (simp add: takeWhile_eq_all_conv)
  have sw: "startswith (''data:'' @ m @ '';base64,'' @ d) ''data:''"
    by (rule startswith_append)
  have dr: "drop 5 (''data:'' @ m @ '';base64,'' @ d) = m @ '';base64,'' @ d"
    by simp
  show ?thesis
    unfolding match_data_uri_def Let_def dr tw using sw assms(1,3)
    by (simp add: startswith_def td)
qed

lemma match_data_uri_starts: "match_data_uri u = Some x \<Longrightarrow> startswith u ''data:''"
  by (simp add: match_data_uri_def split: if_splits)

lemma http_not_data:
  "startswith u ''http://'' \<or> startswith u ''https://'' \<Longrightarrow> match_data_uri u = None"
  by (cases u) (auto simp: match_data_uri_def startswith_def)

lemma queued_http:
  "queued_of us = filter (\<lambda>u. startswith u ''http://'' \<or> startswith u ''https://'') us"
  unfolding queued_of_def by (rule filter_cong [OF refl]) (use http_not_data in blast)

lemma scan_image_part:
  "scan_part (image_part u) (t, imgs, urls) =
     Inr (case match_data_uri u of
            Some (m, d) \<Rightarrow> (t, imgs @ [\<lparr> mime = m, data = d \<rparr>], urls)
          | None \<Rightarrow> if startswith u ''http://'' \<or> startswith u ''https://''
                    then (t, imgs, urls @ [u]) else (t, imgs, urls))"
  by (simp add: scan_part_def image_part_def dict_get_def dict_get_default_def
      split: option.splits)

lemma scan_image_parts:
  "scan_parts (map image_part us) (t, imgs, urls) = Inr (t, imgs @ inline_of us, urls @ queued_of us)"
proof (induction us arbitrary: imgs urls)
  case Nil
  then show ?case by (simp add: inline_of_def queued_of_def)
next
  case (Cons u us)
  show ?case
  proof (cases "match_data_uri u")
    case None
    then show ?thesis
      using Cons [of imgs "urls @ [u]"] Cons [of imgs urls]
      by (simp add: scan_image_part inline_of_def queued_of_def)
  next
    case (Some x)
    obtain m d where x: "x = (m, d)" by (cases x)
    show ?thesis
      using Some x Cons [of "imgs @ [\<lparr> mime = m, data = d \<rparr>]" urls]
      by (simp add: scan_image_part inline_of_def queued_of_def)
  qed
qed

lemma parse_image_parts:
  assumes "m_content msg = CList (map image_part us)"
  shows "parse_last_message fetch (msgs @ [msg]) =
           Inr ((with_role_context msg [],
                 inline_of us @ map the (filter (\<lambda>r. r \<noteq> None) (gather_downloads fetch (queued_of us)))),
                queued_of us)"
  using assms by (simp add: parse_last_message_def split_content_def scan_image_parts)

lemma png_example: "match_data_uri ''data:image/png;base64,QUJD'' = Some (''image/png'', ''QUJD'')"
  using match_data_uri_shape [of "''image/png''" "''QUJD''"] by simp

lemma inline_of_append: "inline_of (a @ b) = inline_of a @ inline_of b"
  by (simp add: inline_of_def)

lemma queued_of_append: "queued_of (a @ b) = queued_of a @ queued_of b"
  by (simp add: queued_of_def)

lemma inline_of_one:
  "inline_of [u] = (case match_data_uri u of Some (m, d) \<Rightarrow> [\<lparr> mime = m, data = d \<rparr>] | None \<Rightarrow> [])"
  by (simp add: inline_of_def)

lemma queued_of_one:
  "queued_of [u] = (if match_data_uri u = None \<and> (startswith u ''http://'' \<or> startswith u ''https://'')
                    then [u] else [])"
  by (simp add: queued_of_def)

text \<open>One part that the program can read: what it adds to the three variables.\<close>

lemma scan_part_ok:
  assumes "part_ok p"
  shows "scan_part p (t, imgs, urls)
         = Inr (t @ part_text p, imgs @ inline_of (part_urls p), urls @ queued_of (part_urls p))"
proof -
  obtain d where p: "p = JObj d"
    using assms by (cases p) (simp_all add: part_ok_def)
  show ?thesis
  proof (cases "dict_get d ''type'' = JStr ''text''")
    case True
    then obtain s where "dict_get_default d ''text'' (JStr []) = JStr s"
      using assms p by (cases "dict_get_default d ''text'' (JStr [])") (simp_all add: part_ok_def is_str_def)
    then show ?thesis
      using True p
      by (simp add: scan_part_def part_text_def part_urls_def inline_of_def queued_of_def)
  next
    case nt: False
    show ?thesis
    proof (cases "dict_get d ''type'' = JStr ''image_url''")
      case False
      then show ?thesis
        using nt p
        by (simp add: scan_part_def part_text_def part_urls_def inline_of_def queued_of_def)
    next
      case True
      then obtain iu where iu: "dict_get_default d ''image_url'' (JObj []) = JObj iu"
        using assms p nt
        by (cases "dict_get_default d ''image_url'' (JObj [])") (simp_all add: part_ok_def)
      then obtain u where u: "dict_get_default iu ''url'' (JStr []) = JStr u"
        using assms p nt True
        by (cases "dict_get_default iu ''url'' (JStr [])") (simp_all add: part_ok_def is_str_def)
      have pu: "part_urls p = [u]" "part_text p = []"
        using p nt True iu u by (simp_all add: part_urls_def part_text_def)
      show ?thesis
        unfolding pu inline_of_one queued_of_one
        using p nt True iu u
        by (simp add: scan_part_def split: option.splits)
    qed
  qed
qed

lemma scan_part_bad:
  assumes "\<not> part_ok p"
  shows "\<exists>e. scan_part p st = Inl e"
proof -
  obtain t imgs urls where st: "st = (t, imgs, urls)" by (cases st)
  show ?thesis
  proof (cases p)
    case (JObj d)
    show ?thesis
    proof (cases "dict_get d ''type'' = JStr ''text''")
      case True
      then show ?thesis
        using assms JObj st
        by (cases "dict_get_default d ''text'' (JStr [])")
           (simp_all add: scan_part_def part_ok_def is_str_def)
    next
      case nt: False
      then have ty: "dict_get d ''type'' = JStr ''image_url''"
        using assms JObj by (simp add: part_ok_def split: if_splits)
      show ?thesis
      proof (cases "dict_get_default d ''image_url'' (JObj [])")
        case (JObj iu)
        then show ?thesis
          using assms \<open>p = JObj d\<close> st nt ty
          by (cases "dict_get_default iu ''url'' (JStr [])")
             (simp_all add: scan_part_def part_ok_def is_str_def)
      qed (use assms \<open>p = JObj d\<close> st nt ty in \<open>simp_all add: scan_part_def part_ok_def\<close>)
    qed
  qed (simp_all add: scan_part_def st)
qed

lemma scan_parts_ok:
  "list_all part_ok ps \<Longrightarrow>
   scan_parts ps (t, imgs, urls)
     = Inr (t @ text_of ps, imgs @ inline_of (urls_of ps), urls @ queued_of (urls_of ps))"
proof (induction ps arbitrary: t imgs urls)
  case Nil
  then show ?case by (simp add: text_of_def urls_of_def inline_of_def queued_of_def)
next
  case (Cons p ps)
  then have ok: "part_ok p" and rest: "list_all part_ok ps" by simp_all
  have u: "urls_of (p # ps) = part_urls p @ urls_of ps" "text_of (p # ps) = part_text p @ text_of ps"
    by (simp_all add: urls_of_def text_of_def)
  show ?case
    unfolding u inline_of_append queued_of_append
    using Cons.IH [OF rest] by (simp add: scan_part_ok [OF ok])
qed

lemma scan_parts_bad:
  "\<not> list_all part_ok ps \<Longrightarrow> \<exists>e. scan_parts ps st = Inl e"
proof (induction ps arbitrary: st)
  case Nil
  then show ?case by simp
next
  case (Cons p ps)
  show ?case
  proof (cases "part_ok p")
    case False
    from scan_part_bad [OF this, of st] show ?thesis by auto
  next
    case True
    obtain t imgs urls where st: "st = (t, imgs, urls)" by (cases st)
    have "\<not> list_all part_ok ps" using Cons.prems True by simp
    from Cons.IH [OF this] show ?thesis
      unfolding st by (simp add: scan_part_ok [OF True])
  qed
qed

lemma parse_parts:
  assumes "m_content msg = CList parts"
  shows "list_all part_ok parts \<Longrightarrow>
         parse_last_message fetch (msgs @ [msg]) =
           Inr ((with_role_context msg (text_of parts),
                 inline_of (urls_of parts)
                   @ map the (filter (\<lambda>r. r \<noteq> None) (gather_downloads fetch (queued_of (urls_of parts))))),
                queued_of (urls_of parts))"
    and "\<not> list_all part_ok parts \<Longrightarrow> \<exists>e. parse_last_message fetch (msgs @ [msg]) = Inl e"
proof -
  show "parse_last_message fetch (msgs @ [msg]) =
           Inr ((with_role_context msg (text_of parts),
                 inline_of (urls_of parts)
                   @ map the (filter (\<lambda>r. r \<noteq> None) (gather_downloads fetch (queued_of (urls_of parts))))),
                queued_of (urls_of parts))"
    if "list_all part_ok parts"
    using assms scan_parts_ok [OF that, of "[]" "[]" "[]"]
    by (simp add: parse_last_message_def split_content_def)
  show "\<exists>e. parse_last_message fetch (msgs @ [msg]) = Inl e" if "\<not> list_all part_ok parts"
    using assms scan_parts_bad [OF that, of "([], [], [])"]
    by (auto simp: parse_last_message_def split_content_def)
qed

lemma image_part_reads:
  "part_ok (image_part u)" "part_urls (image_part u) = [u]" "part_text (image_part u) = []"
  by (simp_all add: image_part_def part_ok_def part_urls_def part_text_def is_str_def
      dict_get_def dict_get_default_def)

lemma inline_member:
  "match_data_uri u = Some (m, d) \<Longrightarrow> u \<in> set us \<Longrightarrow> \<lparr> mime = m, data = d \<rparr> \<in> set (inline_of us)"
  by (force simp: inline_of_def)

text \<open>
  Claim C8. A last message whose content is the single part with the URL
  \<open>data:image/png;base64,QUJD\<close> gives the one attachment \<open>image/png\<close>, \<open>QUJD\<close> and no
  request. Every URL of the shape \<open>data:<mime>;base64,<payload>\<close> matches the pattern. For
  every content list that the program can read, whatever parts stand between the image
  parts and whatever other keys these have: the text is the text of the text parts, the
  attachments are the ones of the image URLs that match the pattern, in their order,
  followed by the downloads, and the requested URLs are the image URLs that start with
  \<open>http://\<close> or \<open>https://\<close>, in their order. So the URL of every image part is inline
  and not requested when it matches, requested when it has an http(s) scheme, and neither
  in any other case. A content list that the program cannot read makes it raise.
\<close>

theorem image_parts_inline_or_queued:
  "(m_content msg = CList [image_part ''data:image/png;base64,QUJD'']
      \<longrightarrow> parse_last_message fetch (msgs @ [msg])
            = Inr ((with_role_context msg [], [\<lparr> mime = ''image/png'', data = ''QUJD'' \<rparr>]), []))
   \<and> (m \<noteq> [] \<and> CHR '';'' \<notin> set m \<and> d \<noteq> [] \<and> CHR ''\<newline>'' \<notin> set d
      \<longrightarrow> match_data_uri (''data:'' @ m @ '';base64,'' @ d) = Some (m, d))
   \<and> (m_content msg = CList parts \<and> list_all part_ok parts
      \<longrightarrow> parse_last_message fetch (msgs @ [msg])
            = Inr ((with_role_context msg (text_of parts),
                    inline_of (urls_of parts)
                      @ map the (filter (\<lambda>r. r \<noteq> None)
                                   (gather_downloads fetch (queued_of (urls_of parts))))),
                   queued_of (urls_of parts)))
   \<and> (m_content msg = CList parts \<and> \<not> list_all part_ok parts
      \<longrightarrow> (\<exists>e. parse_last_message fetch (msgs @ [msg]) = Inl e))
   \<and> (\<forall>p \<in> set parts. \<forall>u \<in> set (part_urls p).
         (\<forall>mi da. match_data_uri u = Some (mi, da)
            \<longrightarrow> \<lparr> mime = mi, data = da \<rparr> \<in> set (inline_of (urls_of parts))
                \<and> u \<notin> set (queued_of (urls_of parts)))
         \<and> (startswith u ''http://'' \<or> startswith u ''https://''
            \<longrightarrow> u \<in> set (queued_of (urls_of parts)) \<and> inline_of [u] = [])
         \<and> (match_data_uri u = None \<and> \<not> startswith u ''http://'' \<and> \<not> startswith u ''https://''
            \<longrightarrow> u \<notin> set (queued_of (urls_of parts)) \<and> inline_of [u] = []))
   \<and> queued_of us = filter (\<lambda>u. startswith u ''http://'' \<or> startswith u ''https://'') us
   \<and> urls_of (map image_part us) = us \<and> list_all part_ok (map image_part us)"
proof -
  have one: "parse_last_message fetch (msgs @ [msg])
            = Inr ((with_role_context msg [], [\<lparr> mime = ''image/png'', data = ''QUJD'' \<rparr>]), [])"
    if "m_content msg = CList [image_part ''data:image/png;base64,QUJD'']"
  proof -
    have "m_content msg = CList (map image_part [''data:image/png;base64,QUJD''])"
      using that by simp
    from parse_image_parts [OF this, of fetch msgs] show ?thesis
      by (simp add: inline_of_def queued_of_def png_example gather_downloads_def)
  qed
  have every: "(\<forall>mi da. match_data_uri u = Some (mi, da)
            \<longrightarrow> \<lparr> mime = mi, data = da \<rparr> \<in> set (inline_of (urls_of parts))
                \<and> u \<notin> set (queued_of (urls_of parts)))
         \<and> (startswith u ''http://'' \<or> startswith u ''https://''
            \<longrightarrow> u \<in> set (queued_of (urls_of parts)) \<and> inline_of [u] = [])
         \<and> (match_data_uri u = None \<and> \<not> startswith u ''http://'' \<and> \<not> startswith u ''https://''
            \<longrightarrow> u \<notin> set (queued_of (urls_of parts)) \<and> inline_of [u] = [])"
    if "p \<in> set parts" "u \<in> set (part_urls p)" for p u
  proof -
    have mem: "u \<in> set (urls_of parts)" using that by (auto simp: urls_of_def)
    have a: "\<lparr> mime = mi, data = da \<rparr> \<in> set (inline_of (urls_of parts))
             \<and> u \<notin> set (queued_of (urls_of parts))"
      if "match_data_uri u = Some (mi, da)" for mi da
      using inline_member [OF that mem] that by (simp add: queued_of_def)
    have b: "u \<in> set (queued_of (urls_of parts)) \<and> inline_of [u] = []"
      if "startswith u ''http://'' \<or> startswith u ''https://''"
      using that mem http_not_data [OF that] by (simp add: queued_of_def inline_of_one)
    have c: "u \<notin> set (queued_of (urls_of parts)) \<and> inline_of [u] = []"
      if "match_data_uri u = None \<and> \<not> startswith u ''http://'' \<and> \<not> startswith u ''https://''"
      using that by (simp add: queued_of_def inline_of_one)
    show ?thesis using a b c by blast
  qed
  have im: "urls_of (map image_part us) = us" "list_all part_ok (map image_part us)"
    by (induction us) (simp_all add: urls_of_def image_part_reads)
  show ?thesis
    using one every im match_data_uri_shape [of m d] queued_http [of us]
      parse_parts [of msg parts fetch msgs]
    by blast
qed

lemma mixed_parts_read:
  "list_all part_ok mixed_parts"
  "text_of mixed_parts = ''look here''"
  "urls_of mixed_parts
     = [''data:text/plain;base64,aGk='', ''http://files.test/gone'', ''ftp://files.test/x'',
        ''https://files.test/abc.png'']"
  by (simp_all add: mixed_parts_def part_ok_def text_of_def urls_of_def part_text_def part_urls_def
      image_part_def is_str_def dict_get_def dict_get_default_def)

theorem image_parts_inline_or_queued_witness:
  "parse_last_message demo_fetch [user_message (CList [image_part ''data:image/png;base64,QUJD''])]
     = Inr (([], [\<lparr> mime = ''image/png'', data = ''QUJD'' \<rparr>]), [])
   \<and> match_data_uri ''data:image/png;base64,QUJD'' = Some (''image/png'', ''QUJD'')
   \<and> parse_last_message demo_fetch [user_message (CList mixed_parts)]
     = Inr ((''look here'',
             [\<lparr> mime = ''text/plain'', data = ''aGk='' \<rparr>, \<lparr> mime = ''image/png'', data = ''QUJD'' \<rparr>]),
            [''http://files.test/gone'', ''https://files.test/abc.png''])"
proof -
  let ?one = "user_message (CList [image_part ''data:image/png;base64,QUJD''])"
  let ?mix = "user_message (CList mixed_parts)"
  have r: "with_role_context (user_message c) t = t" for c t
    by (simp add: with_role_context_def user_message_def str_or_def lower_def lower_char_def cp_def)
  have c1: "m_content ?one = CList [image_part ''data:image/png;base64,QUJD'']"
    by (simp add: user_message_def)
  have c2: "m_content ?mix = CList mixed_parts \<and> list_all part_ok mixed_parts"
    by (simp add: user_message_def mixed_parts_read)
  have sh: "''image/png'' \<noteq> [] \<and> CHR '';'' \<notin> set ''image/png'' \<and> ''QUJD'' \<noteq> []
            \<and> CHR ''\<newline>'' \<notin> set ''QUJD''"
    by simp
  note t1 = image_parts_inline_or_queued [where msg = ?one and fetch = demo_fetch and msgs = "[]",
      THEN conjunct1, rule_format, OF c1]
  note t2 = image_parts_inline_or_queued [where m = "''image/png''" and d = "''QUJD''",
      THEN conjunct2, THEN conjunct1, rule_format, OF sh]
  note t3 = image_parts_inline_or_queued [where msg = ?mix and fetch = demo_fetch and msgs = "[]"
      and parts = mixed_parts, THEN conjunct2, THEN conjunct2, THEN conjunct1, rule_format, OF c2]
  have m: "match_data_uri ''data:text/plain;base64,aGk='' = Some (''text/plain'', ''aGk='')"
    using match_data_uri_shape [of "''text/plain''" "''aGk=''"] by simp
  have n: "match_data_uri ''http://files.test/gone'' = None"
          "match_data_uri ''https://files.test/abc.png'' = None"
          "match_data_uri ''ftp://files.test/x'' = None"
    by (simp_all add: match_data_uri_def startswith_def)
  have io: "inline_of (urls_of mixed_parts) = [\<lparr> mime = ''text/plain'', data = ''aGk='' \<rparr>]"
    by (simp add: mixed_parts_read inline_of_def m n)
  have qo: "queued_of (urls_of mixed_parts) = [''http://files.test/gone'', ''https://files.test/abc.png'']"
    by (simp add: mixed_parts_read queued_of_def m n startswith_def)
  have b: "b64encode [0x41, 0x42, 0x43] = ''QUJD''" by code_simp
  have g: "gather_downloads demo_fetch [''http://files.test/gone'', ''https://files.test/abc.png'']
           = [None, Some \<lparr> mime = ''image/png'', data = ''QUJD'' \<rparr>]"
    by (simp add: gather_downloads_def download_url_def demo_fetch_def b del: b64encode.simps)
  have 1: "parse_last_message demo_fetch [?one]
           = Inr (([], [\<lparr> mime = ''image/png'', data = ''QUJD'' \<rparr>]), [])"
    using t1 by (simp add: r)
  have 2: "match_data_uri ''data:image/png;base64,QUJD'' = Some (''image/png'', ''QUJD'')"
    using t2 by simp
  have 3: "parse_last_message demo_fetch [?mix]
           = Inr ((''look here'',
                   [\<lparr> mime = ''text/plain'', data = ''aGk='' \<rparr>, \<lparr> mime = ''image/png'', data = ''QUJD'' \<rparr>]),
                  [''http://files.test/gone'', ''https://files.test/abc.png''])"
    using t3 unfolding io qo g by (simp add: r mixed_parts_read)
  show ?thesis using 1 2 3 by (intro conjI)
qed

section \<open>The downloads\<close>

lemma gather_length: "length (gather_downloads fetch urls) = length urls"
  by (simp add: gather_downloads_def)

lemma gather_nth:
  "i < length urls \<Longrightarrow> gather_downloads fetch urls ! i = download_url fetch i (urls ! i)"
  by (simp add: gather_downloads_def nth_enumerate_eq)

lemma download_failure:
  "download_url fetch i u = None \<longleftrightarrow>
     (case fetch i u of
        Inl e \<Rightarrow> True
      | Inr resp \<Rightarrow> h_status resp = 404 \<or> \<not> (200 \<le> h_status resp \<and> h_status resp \<le> 299))"
  by (simp add: download_url_def split: sum.splits)

lemma parse_never_raises_on_fetch:
  "parse_last_message fetch msgs =
     (if msgs = [] then Inr (([], []), [])
      else case split_content (m_content (last msgs)) of
             Inl e \<Rightarrow> Inl e
           | Inr (t, inline, urls) \<Rightarrow>
               Inr ((with_role_context (last msgs) t,
                     inline @ map the (filter (\<lambda>r. r \<noteq> None) (gather_downloads fetch urls))),
                    urls))"
  by (simp add: parse_last_message_def Let_def)

text \<open>
  Claim C7. A download gives \<open>None\<close> exactly when its request raises or its response has
  the status 404 or a status outside 200 to 299, and that is all a failure does: the
  gathered results have one slot for each URL, in the order of the URLs, and a slot depends
  on its own request only. With a 404 for the first URL and a 200 for the second, the
  results are \<open>None\<close> and the attachment of the second. Whatever the requests do,
  \<open>parse_last_message\<close> raises only when the content itself is malformed, and its
  attachments are the inline ones followed by the downloads that are not \<open>None\<close>, in the
  order of their URLs.
\<close>

theorem downloads_isolated:
  "length (gather_downloads fetch urls) = length urls
   \<and> (\<forall>i < length urls.
        gather_downloads fetch urls ! i = download_url fetch i (urls ! i)
        \<and> (gather_downloads fetch urls ! i = None \<longleftrightarrow>
             (case fetch i (urls ! i) of
                Inl e \<Rightarrow> True
              | Inr resp \<Rightarrow> h_status resp = 404 \<or> \<not> (200 \<le> h_status resp \<and> h_status resp \<le> 299))))
   \<and> (fetch 0 u1 = Inr r1 \<and> h_status r1 = 404 \<and> fetch 1 u2 = Inr r2 \<and> h_status r2 = 200
        \<longrightarrow> gather_downloads fetch [u1, u2]
              = [None, Some \<lparr> mime = takeWhile (\<lambda>c. c \<noteq> CHR '';'')
                                       (case h_content_type r2 of
                                          None \<Rightarrow> ''application/octet-stream''
                                        | Some t \<Rightarrow> t),
                               data = b64encode (h_content r2) \<rparr>])
   \<and> (msgs \<noteq> [] \<and> split_content (m_content (last msgs)) = Inr (t, inline, urls)
        \<longrightarrow> (\<exists>tc images.
               parse_last_message fetch msgs = Inr ((tc, images), urls)
               \<and> images = inline @ map the (filter (\<lambda>r. r \<noteq> None) (gather_downloads fetch urls))
               \<and> map Some (drop (length inline) images)
                   = filter (\<lambda>r. r \<noteq> None) (gather_downloads fetch urls)))"
proof -
  have slot: "\<forall>i < length urls.
        gather_downloads fetch urls ! i = download_url fetch i (urls ! i)
        \<and> (gather_downloads fetch urls ! i = None \<longleftrightarrow>
             (case fetch i (urls ! i) of
                Inl e \<Rightarrow> True
              | Inr resp \<Rightarrow> h_status resp = 404 \<or> \<not> (200 \<le> h_status resp \<and> h_status resp \<le> 299)))"
    by (simp add: gather_nth download_failure)
  have two: "gather_downloads fetch [u1, u2]
              = [None, Some \<lparr> mime = takeWhile (\<lambda>c. c \<noteq> CHR '';'')
                                       (case h_content_type r2 of
                                          None \<Rightarrow> ''application/octet-stream''
                                        | Some t \<Rightarrow> t),
                               data = b64encode (h_content r2) \<rparr>]"
    if "fetch 0 u1 = Inr r1" "h_status r1 = 404" "fetch 1 u2 = Inr r2" "h_status r2 = 200"
    using that by (simp add: gather_downloads_def download_url_def)
  have fin: "\<exists>tc images.
               parse_last_message fetch msgs = Inr ((tc, images), urls)
               \<and> images = inline @ map the (filter (\<lambda>r. r \<noteq> None) (gather_downloads fetch urls))
               \<and> map Some (drop (length inline) images)
                   = filter (\<lambda>r. r \<noteq> None) (gather_downloads fetch urls)"
    if h: "msgs \<noteq> []" "split_content (m_content (last msgs)) = Inr (t, inline, urls)"
  proof -
    have "map Some (map the (filter (\<lambda>r. r \<noteq> None) xs)) = filter (\<lambda>r. r \<noteq> None) xs"
      for xs :: "attachment option list"
      by (induction xs) auto
    then show ?thesis using h by (simp add: parse_never_raises_on_fetch)
  qed
  show ?thesis
    using gather_length [of fetch urls] slot two fin by blast
qed

theorem downloads_isolated_witness:
  "gather_downloads demo_fetch [''http://files.test/gone'', ''https://files.test/abc.png'']
     = [None, Some \<lparr> mime = ''image/png'', data = ''QUJD'' \<rparr>]
   \<and> parse_last_message demo_fetch
        [user_message (CList [image_part ''http://files.test/gone'',
                              image_part ''data:text/plain;base64,aGk='',
                              image_part ''https://files.test/abc.png''])]
     = Inr (([], [\<lparr> mime = ''text/plain'', data = ''aGk='' \<rparr>, \<lparr> mime = ''image/png'', data = ''QUJD'' \<rparr>]),
            [''http://files.test/gone'', ''https://files.test/abc.png''])"
proof -
  let ?gone = "\<lparr> h_status = 404, h_content_type = None, h_content = [] \<rparr>"
  let ?png = "\<lparr> h_status = 200, h_content_type = Some ''image/png; charset=binary'',
                 h_content = [0x41, 0x42, 0x43] \<rparr>"
  let ?us = "[''http://files.test/gone'', ''data:text/plain;base64,aGk='', ''https://files.test/abc.png'']"
  let ?msg = "user_message (CList (map image_part ?us))"
  have f: "demo_fetch 0 ''http://files.test/gone'' = Inr ?gone"
          "demo_fetch 1 ''https://files.test/abc.png'' = Inr ?png"
    by (simp_all add: demo_fetch_def)
  have b: "b64encode [0x41, 0x42, 0x43] = ''QUJD''" by code_simp
  have g: "gather_downloads demo_fetch [''http://files.test/gone'', ''https://files.test/abc.png'']
     = [None, Some \<lparr> mime = ''image/png'', data = ''QUJD'' \<rparr>]"
    using downloads_isolated [where fetch = demo_fetch and ?u1.0 = "''http://files.test/gone''"
        and ?u2.0 = "''https://files.test/abc.png''" and ?r1.0 = ?gone and ?r2.0 = ?png] f b
    by simp
  have m: "match_data_uri ''data:text/plain;base64,aGk='' = Some (''text/plain'', ''aGk='')"
    using match_data_uri_shape [of "''text/plain''" "''aGk=''"] by simp
  have n: "match_data_uri ''http://files.test/gone'' = None"
          "match_data_uri ''https://files.test/abc.png'' = None"
    by (simp_all add: match_data_uri_def startswith_def)
  have sc: "split_content (m_content ?msg)
            = Inr ([], [\<lparr> mime = ''text/plain'', data = ''aGk='' \<rparr>],
                   [''http://files.test/gone'', ''https://files.test/abc.png''])"
  proof -
    have io: "inline_of ?us = [\<lparr> mime = ''text/plain'', data = ''aGk='' \<rparr>]"
      by (simp add: inline_of_def m n)
    have qo: "queued_of ?us = [''http://files.test/gone'', ''https://files.test/abc.png'']"
      by (simp add: queued_of_def m n startswith_def)
    have "scan_parts (map image_part ?us) ([], [], []) = Inr ([], [] @ inline_of ?us, [] @ queued_of ?us)"
      by (rule scan_image_parts)
    then show ?thesis
      unfolding io qo by (simp add: user_message_def split_content_def)
  qed
  have r: "with_role_context ?msg [] = []"
    by (simp add: with_role_context_def user_message_def str_or_def lower_def lower_char_def cp_def)
  have "parse_last_message demo_fetch [?msg]
        = Inr ((with_role_context ?msg [],
                [\<lparr> mime = ''text/plain'', data = ''aGk='' \<rparr>, \<lparr> mime = ''image/png'', data = ''QUJD'' \<rparr>]),
               [''http://files.test/gone'', ''https://files.test/abc.png''])"
    using downloads_isolated [where fetch = demo_fetch and msgs = "[?msg]" and t = "[]"
        and inline = "[\<lparr> mime = ''text/plain'', data = ''aGk='' \<rparr>]"
        and urls = "[''http://files.test/gone'', ''https://files.test/abc.png'']"] sc g
    by (auto simp: parse_never_raises_on_fetch)
  then show ?thesis using g r by simp
qed

section \<open>Tool messages\<close>

lemma lower_tool: "lower ''tool'' = ''tool''"
  by code_simp

text \<open>
  Claim C9, as the code has it. A last message with the role \<open>tool\<close> (in any case of the
  letters), a name \<open>n\<close>, a call id \<open>c\<close> and the text \<open>t\<close> is rendered as
  \<open>Tool result from n (c):\<close>, a newline and \<open>t\<close>, with a space between the name and the
  parenthesis. Without a name the name is \<open>tool\<close>; without a call id the parenthesis and
  its space are left out. \<open>build_full_context_text\<close> renders the single tool message with
  the name \<open>search\<close> and the content \<open>42\<close> as \<open>Tool[search]: 42\<close> and two newlines.
\<close>

theorem tool_message_rendering:
  "(lower (str_or (m_role msg) []) = ''tool'' \<and> m_content msg = CStr t
      \<and> m_name msg = Some n \<and> n \<noteq> [] \<and> m_tool_call_id msg = Some c \<and> c \<noteq> []
      \<longrightarrow> parse_last_message fetch (msgs @ [msg])
            = Inr ((''Tool result from '' @ n @ '' ('' @ c @ ''):\<newline>'' @ t, []), []))
   \<and> (lower (str_or (m_role msg) []) = ''tool'' \<and> m_content msg = CStr t
      \<longrightarrow> parse_last_message fetch (msgs @ [msg])
            = Inr ((''Tool result from '' @ str_or (m_name msg) ''tool''
                      @ (if str_or (m_tool_call_id msg) [] = [] then []
                         else '' ('' @ str_or (m_tool_call_id msg) [] @ '')'')
                      @ '':\<newline>'' @ t, []), []))
   \<and> (m_role msg = Some ''tool'' \<and> m_name msg = Some ''search'' \<and> m_content msg = CStr ''42''
      \<longrightarrow> build_full_context_text marker [msg] = Inr ''Tool[search]: 42\<newline>\<newline>'')"
proof -
  have gen: "parse_last_message fetch (msgs @ [msg])
            = Inr ((''Tool result from '' @ str_or (m_name msg) ''tool''
                      @ (if str_or (m_tool_call_id msg) [] = [] then []
                         else '' ('' @ str_or (m_tool_call_id msg) [] @ '')'')
                      @ '':\<newline>'' @ t, []), [])"
    if "lower (str_or (m_role msg) []) = ''tool''" "m_content msg = CStr t"
    using that
    by (simp add: parse_last_message_def split_content_def with_role_context_def
        gather_downloads_def str_or_def split: option.splits)
  have spec: "parse_last_message fetch (msgs @ [msg])
            = Inr ((''Tool result from '' @ n @ '' ('' @ c @ ''):\<newline>'' @ t, []), [])"
    if "lower (str_or (m_role msg) []) = ''tool''" "m_content msg = CStr t"
       "m_name msg = Some n" "n \<noteq> []" "m_tool_call_id msg = Some c" "c \<noteq> []"
    using gen [OF that(1,2)] that(3-6) by (simp add: str_or_def)
  have ctx: "build_full_context_text marker [msg] = Inr ''Tool[search]: 42\<newline>\<newline>''"
    if "m_role msg = Some ''tool''" "m_name msg = Some ''search''" "m_content msg = CStr ''42''"
    using that
    by (simp add: render_message_def extract_text_from_content_def with_call_annotation_def
        role_label_def str_or_def lower_tool)
  show ?thesis using gen spec ctx by blast
qed

theorem tool_message_rendering_witness:
  "parse_last_message demo_fetch [tool_message]
     = Inr ((''Tool result from search (call_1):\<newline>42'', []), [])
   \<and> build_full_context_text [] [tool_message] = Inr ''Tool[search]: 42\<newline>\<newline>''"
proof -
  have r: "lower (str_or (m_role tool_message) []) = ''tool''"
    by (simp add: tool_message_def str_or_def lower_tool)
  have f: "m_content tool_message = CStr ''42''" "m_name tool_message = Some ''search''"
    "m_tool_call_id tool_message = Some ''call_1''" "m_role tool_message = Some ''tool''"
    by (simp_all add: tool_message_def)
  note t = tool_message_rendering [where msg = tool_message and t = "''42''" and n = "''search''"
      and c = "''call_1''" and fetch = demo_fetch and msgs = "[]" and marker = "[]"]
  have 1: "parse_last_message demo_fetch ([] @ [tool_message])
     = Inr ((''Tool result from '' @ ''search'' @ '' ('' @ ''call_1'' @ ''):\<newline>'' @ ''42'', []), [])"
    using t [THEN conjunct1] r f by simp
  have 2: "build_full_context_text [] [tool_message] = Inr ''Tool[search]: 42\<newline>\<newline>''"
    using t [THEN conjunct2, THEN conjunct2] f by simp
  show ?thesis using 1 2 by simp
qed

text \<open>
  Claim C9, as the specification states it, has the parenthesis right after the name. The
  code puts a space between them.
\<close>

theorem tool_message_rendering_counterexample:
  "parse_last_message demo_fetch [tool_message]
     \<noteq> Inr ((''Tool result from search(call_1):\<newline>42'', []), [])"
proof -
  have "parse_last_message demo_fetch [tool_message]
     = Inr ((''Tool result from search (call_1):\<newline>42'', []), [])"
    by (simp add: parse_last_message_def split_content_def with_role_context_def
        gather_downloads_def str_or_def tool_message_def lower_tool)
  then show ?thesis by simp
qed

section \<open>Examples of the text functions\<close>

lemma iso_text_example:
  "replace_Z (truncate_fraction ''2024-01-01T00:00:00.123456789Z'') = ''2024-01-01T00:00:00.123456+00:00''"
  "truncate_fraction ''1.1234567.12345678x'' = ''1.123456.123456x''"
  "truncate_fraction ''0.123456'' = ''0.123456''"
  by code_simp+

lemma strip_example: "strip ''  a b \<newline>'' = ''a b''"
  by code_simp

lemma tool_calls_example:
  "format_tool_calls_text
     [\<lparr> tc_function = Some \<lparr> tf_name = PStr ''search'', tf_arguments = PStr ''[1, 2]'' \<rparr>,
        tc_name = PNone, tc_arguments = PNone \<rparr>,
      \<lparr> tc_function = None, tc_name = PNone, tc_arguments = PNone \<rparr>]
   = ''search: [1, 2]\<newline>unknown_tool: {}''"
  by code_simp

lemma md5_example: "hexdigest (md5 (encode ''abc'')) = ''900150983cd24fb0d6963f7d28e17f72''"
  by code_simp

end
